theory Spec2Isabelle
  imports Main "HOL-Library.Sublist" "HOL-Library.AList"
begin

section \<open>Localization extraction: a shallow embedding\<close>

text \<open>
  The development embeds the extraction engine of the localization manager
  (\<^verbatim>\<open>extract\<close>, \<^verbatim>\<open>extractFromFile\<close>, \<^verbatim>\<open>insert\<close>, \<^verbatim>\<open>collect\<close>, the two call-site
  extractors and \<^verbatim>\<open>unescapeString\<close>). JavaScript strings are modelled as \<open>string\<close>:
  the code reads them one code unit at a time and compares the units with ASCII
  characters only. Thrown errors are values (\<open>Inl\<close> of the error message, or
  \<open>Some\<close> of it next to the state that a mutating function leaves behind); objects
  that the code mutates are passed in and returned. \<^verbatim>\<open>insert\<close> is named \<open>insert_key\<close>
  here, \<^verbatim>\<open>output\<close> is \<open>outputPath\<close>. The catalogs are the only objects of the model: a
  call of \<^verbatim>\<open>insert\<close> that walks from a catalog into a built-in object of the runtime
  has the result \<open>None\<close>, and so has every function whose result depends on it.
\<close>

subsection \<open>String literal decoding\<close>

definition backslash :: char where
  "backslash = CHR 0x5C"

text \<open>
  \<^verbatim>\<open>unescapeMap\<close>: the record of the eight recognised escape letters. A lookup of any
  other character is \<^verbatim>\<open>undefined\<close>, here \<open>None\<close>.
\<close>

definition unescapeMap :: "char \<Rightarrow> char option" where
  "unescapeMap c =
     (if c = CHR 0x27 then Some (CHR 0x27)
      else if c = CHR 0x22 then Some (CHR 0x22)
      else if c = CHR 0x5C then Some (CHR 0x5C)
      else if c = CHR ''n'' then Some (CHR 0x0A)
      else if c = CHR ''r'' then Some (CHR 0x0D)
      else if c = CHR ''t'' then Some (CHR 0x09)
      else if c = CHR ''b'' then Some (CHR 0x08)
      else if c = CHR ''f'' then Some (CHR 0x0C)
      else None)"

text \<open>
  The \<^verbatim>\<open>for\<close> loop of \<^verbatim>\<open>unescapeString\<close>, with its index \<open>i\<close> and the array \<open>result\<close>
  of pushed characters. A recognised escape pushes the replacement and skips one more
  index (\<^verbatim>\<open>i++; continue\<close> on top of the loop's own increment).
\<close>

function unescapeLoop :: "string \<Rightarrow> nat \<Rightarrow> string \<Rightarrow> string" where
  "unescapeLoop str i result =
     (if i < length str then
        (let ch = str ! i in
         if ch = backslash \<and> i + 1 < length str \<and> unescapeMap (str ! (i + 1)) \<noteq> None
         then unescapeLoop str (i + 2) (result @ [the (unescapeMap (str ! (i + 1)))])
         else unescapeLoop str (i + 1) (result @ [ch]))
      else result)"
  by pat_completeness auto
termination
  by (relation "measure (\<lambda>(str, i, result). length str - i)") auto

declare unescapeLoop.simps [simp del]

definition unescapeString :: "string \<Rightarrow> string" where
  "unescapeString str = unescapeLoop str 0 []"

text \<open>
  The same scan written by recursion on the text that is still to be read; it is
  shown equal to the loop below and used to reason about it.
\<close>

fun unescapeScan :: "string \<Rightarrow> string" where
  "unescapeScan [] = []"
| "unescapeScan [c] = [c]"
| "unescapeScan (c # d # cs) =
     (if c = backslash \<and> unescapeMap d \<noteq> None
      then the (unescapeMap d) # unescapeScan cs
      else c # unescapeScan (d # cs))"

text \<open>
  A text holds a recognised escape when a backslash is immediately followed by one
  of the eight mapped characters.
\<close>

fun hasEscape :: "string \<Rightarrow> bool" where
  "hasEscape [] = False"
| "hasEscape [c] = False"
| "hasEscape (c # d # cs) =
     ((c = backslash \<and> unescapeMap d \<noteq> None) \<or> hasEscape (d # cs))"

subsection \<open>Syntax tree\<close>

text \<open>
  The TypeScript parser is an external collaborator; its trees are data here. Every
  node carries what the code reads off it: the file name of its source file, the
  zero-based line and character of \<^verbatim>\<open>node.pos\<close>, and its source text (\<^verbatim>\<open>getText()\<close>).
\<close>

record info =
  sourcePath :: string
  posLine :: nat
  posCharacter :: nat
  sourceText :: string

text \<open>
  Only the node kinds that the code tells apart have a constructor of their own:
  call expressions (callee and arguments), string literals (with their \<^verbatim>\<open>text\<close>),
  object literals (their members), property assignments (name and initializer),
  identifiers, and spread members, which are the object-literal members without a
  \<^verbatim>\<open>name\<close>. Any other node is \<open>OtherNode\<close> with its children.
\<close>

datatype node =
    CallExpression info node "node list"
  | StringLiteral info string
  | ObjectLiteralExpression info "node list"
  | PropertyAssignment info node node
  | Identifier info string
  | SpreadAssignment info node
  | OtherNode info "node list"

fun nodeInfo :: "node \<Rightarrow> info" where
  "nodeInfo (CallExpression i e args) = i"
| "nodeInfo (StringLiteral i t) = i"
| "nodeInfo (ObjectLiteralExpression i ps) = i"
| "nodeInfo (PropertyAssignment i n v) = i"
| "nodeInfo (Identifier i t) = i"
| "nodeInfo (SpreadAssignment i e) = i"
| "nodeInfo (OtherNode i cs) = i"

definition getText :: "node \<Rightarrow> string" where
  "getText n = sourceText (nodeInfo n)"

text \<open>
  \<^verbatim>\<open>ts.forEachChild\<close>: the children of a node, in source order. Tokens and the type
  arguments of a call are not part of the model.
\<close>

fun forEachChild :: "node \<Rightarrow> node list" where
  "forEachChild (CallExpression i e args) = e # args"
| "forEachChild (StringLiteral i t) = []"
| "forEachChild (ObjectLiteralExpression i ps) = ps"
| "forEachChild (PropertyAssignment i n v) = [n, v]"
| "forEachChild (Identifier i t) = []"
| "forEachChild (SpreadAssignment i e) = [e]"
| "forEachChild (OtherNode i cs) = cs"

subsection \<open>Error messages\<close>

text \<open>A number in a template string: its decimal digits.\<close>

definition digits :: string where
  "digits = ''0123456789''"

fun string_of_nat :: "nat \<Rightarrow> string" where
  "string_of_nat n =
     (if n < 10 then [digits ! n]
      else string_of_nat (n div 10) @ [digits ! (n mod 10)])"

text \<open>
  \<^verbatim>\<open>buildErrorMessage\<close>: file name, one-based line and column, then the message. A
  \<^verbatim>\<open>TypeScriptError\<close> is an error whose message is built this way.
\<close>

definition buildErrorMessage :: "string \<Rightarrow> node \<Rightarrow> string" where
  "buildErrorMessage message n =
     sourcePath (nodeInfo n) @ ''('' @ string_of_nat (posLine (nodeInfo n) + 1) @ '',''
       @ string_of_nat (posCharacter (nodeInfo n) + 1) @ ''): '' @ message"

definition quoted :: "string \<Rightarrow> string" where
  "quoted s = [CHR 0x27] @ s @ [CHR 0x27]"

definition dquoted :: "string \<Rightarrow> string" where
  "dquoted s = [CHR 0x22] @ s @ [CHR 0x22]"

subsection \<open>Call-site matchers and extractors\<close>

fun isLocalizeCall :: "node \<Rightarrow> bool" where
  "isLocalizeCall (CallExpression i e args) = (getText e = ''nls.localize'')"
| "isLocalizeCall n = False"

fun isCommandLocalizeUtility :: "node \<Rightarrow> bool" where
  "isCommandLocalizeUtility (CallExpression i e args) =
     (getText e = ''Command.toLocalizedCommand'')"
| "isCommandLocalizeUtility n = False"

fun isStringLiteral :: "node \<Rightarrow> bool" where
  "isStringLiteral (StringLiteral i t) = True"
| "isStringLiteral n = False"

fun extractString :: "node \<Rightarrow> string + string" where
  "extractString (StringLiteral i t) = Inr (unescapeString t)"
| "extractString n =
     Inl (buildErrorMessage (quoted (getText n) @ '' is not a string constant'') n)"

fun extractFromLocalizeCall :: "node \<Rightarrow> string + (string \<times> string)" where
  "extractFromLocalizeCall (CallExpression i e args) =
     (if length args < 2
      then Inl (buildErrorMessage ''Localize call needs at least 2 arguments''
                  (CallExpression i e args))
      else (case extractString (args ! 0) of
              Inl err \<Rightarrow> Inl err
            | Inr key \<Rightarrow>
                (case extractString (args ! 1) of
                   Inl err \<Rightarrow> Inl err
                 | Inr val \<Rightarrow> Inr (key, val))))"
| "extractFromLocalizeCall n = Inl (buildErrorMessage ''Invalid node type'' n)"

text \<open>
  The loop over the members of the object literal of a localized command. Members
  without a name are skipped; a member that is not a property assignment, or whose
  name is not an identifier, is an error; of the others only \<^verbatim>\<open>id\<close>, \<^verbatim>\<open>label\<close> and
  \<^verbatim>\<open>category\<close> are read, a later one replacing an earlier one of the same name.
\<close>

fun hasName :: "node \<Rightarrow> bool" where
  "hasName (SpreadAssignment i e) = False"
| "hasName n = True"

definition relevantProps :: "string list" where
  "relevantProps = [''id'', ''label'', ''category'']"

fun propertyLoop :: "node list \<Rightarrow> (string \<rightharpoonup> string) \<Rightarrow> string + (string \<rightharpoonup> string)" where
  "propertyLoop [] propertyMap = Inr propertyMap"
| "propertyLoop (property # properties) propertyMap =
     (if \<not> hasName property then propertyLoop properties propertyMap
      else (case property of
              PropertyAssignment i (Identifier j name) initializer \<Rightarrow>
                (if name \<notin> set relevantProps then propertyLoop properties propertyMap
                 else (case extractString initializer of
                         Inl err \<Rightarrow> Inl err
                       | Inr val \<Rightarrow> propertyLoop properties (propertyMap(name \<mapsto> val))))
            | PropertyAssignment i other initializer \<Rightarrow>
                Inl (buildErrorMessage
                       (''Only identifiers are allowed in '' @ dquoted ''toLocalizedCommand'') property)
            | other \<Rightarrow>
                Inl (buildErrorMessage
                       (''Only property assignments in '' @ dquoted ''toLocalizedCommand''
                          @ '' are allowed'')
                       property)))"

record commandLocalization =
  label :: "string \<times> string"
  category :: "(string \<times> string) option"

text \<open>
  A JavaScript string is falsy exactly when it is empty, and \<^verbatim>\<open>undefined\<close> is falsy:
  \<open>truthy\<close> is the test that \<^verbatim>\<open>!x\<close>, \<^verbatim>\<open>x || y\<close> and \<^verbatim>\<open>x && y\<close> apply to a
  \<^verbatim>\<open>string | undefined\<close>.
\<close>

fun truthy :: "string option \<Rightarrow> bool" where
  "truthy None = False"
| "truthy (Some s) = (s \<noteq> [])"

fun extractFromLocalizedCommandCall :: "node \<Rightarrow> string + commandLocalization" where
  "extractFromLocalizedCommandCall (CallExpression i e args) =
     (let n = CallExpression i e args in
      if length args < 1
      then Inl (buildErrorMessage ''Localize call needs at least 2 arguments'' n)
      else (case args ! 0 of
              ObjectLiteralExpression j properties \<Rightarrow>
                (case propertyLoop properties Map.empty of
                   Inl err \<Rightarrow> Inl err
                 | Inr propertyMap \<Rightarrow>
                     (case (if length args > 1
                            then (case extractString (args ! 1) of
                                    Inl err \<Rightarrow> Inl err
                                  | Inr s \<Rightarrow> Inr (if s \<noteq> [] then Some s
                                                   else propertyMap ''id''))
                            else Inr (propertyMap ''id'')) of
                        Inl err \<Rightarrow> Inl err
                      | Inr labelKey \<Rightarrow>
                          (case (if length args > 2
                                 then (case extractString (args ! 2) of
                                         Inl err \<Rightarrow> Inl err
                                       | Inr s \<Rightarrow> Inr (Some s))
                                 else Inr None) of
                             Inl err \<Rightarrow> Inl err
                           | Inr categoryKey \<Rightarrow>
                               (if \<not> truthy labelKey
                                then Inl (buildErrorMessage ''No label key found'' n)
                                else if \<not> truthy (propertyMap ''label'')
                                then Inl (buildErrorMessage ''No default label found'' n)
                                else Inr \<lparr>label = (the labelKey, the (propertyMap ''label'')),
                                          category =
                                            (if truthy categoryKey
                                                \<and> truthy (propertyMap ''category'')
                                             then Some (the categoryKey,
                                                        the (propertyMap ''category''))
                                             else None)\<rparr>))))
            | other \<Rightarrow>
                Inl (buildErrorMessage
                  (''First argument of '' @ dquoted ''toLocalizedCommand''
                     @ '' needs to be an object literal'')
                  n)))"
| "extractFromLocalizedCommandCall n = Inl (buildErrorMessage ''Invalid node type'' n)"

subsection \<open>The localization catalog\<close>

text \<open>
  \<^verbatim>\<open>Localization\<close>: an object whose properties are strings or nested catalogs. The
  object is the list of its own properties in insertion order: \<open>map_of\<close> reads an own
  property (\<open>None\<close> when there is none), and an assignment replaces the value in place
  or appends a new property (\<open>AList.update\<close>). The rule that puts number-like keys
  first when an object is written out is outside the model.
\<close>

datatype entry = Str string | Obj "(string \<times> entry) list"

type_synonym localization = "(string \<times> entry) list"

text \<open>
  The catalogs are created by \<^verbatim>\<open>{}\<close>, so their prototype is \<^verbatim>\<open>Object.prototype\<close>, and
  the read \<^verbatim>\<open>localization[part]\<close> of \<^verbatim>\<open>insert\<close> falls through to it when the object
  has no own property of that name. These are the members of \<^verbatim>\<open>Object.prototype\<close>
  whose value is a function; its one other member is the accessor \<^verbatim>\<open>__proto__\<close>, which
  returns \<^verbatim>\<open>Object.prototype\<close> itself. The prototype is taken as the language defines
  it: no member has been added, removed or frozen.
\<close>

definition objectPrototypeFunctions :: "string list" where
  "objectPrototypeFunctions =
     [''constructor'', ''__defineGetter__'', ''__defineSetter__'', ''hasOwnProperty'',
      ''__lookupGetter__'', ''__lookupSetter__'', ''isPrototypeOf'',
      ''propertyIsEnumerable'', ''toString'', ''valueOf'', ''toLocaleString'']"

text \<open>
  What \<^verbatim>\<open>localization[part]\<close> evaluates to: the own property if there is one,
  otherwise the inherited member, otherwise \<^verbatim>\<open>undefined\<close>. \<^verbatim>\<open>typeof\<close> is
  \<^verbatim>\<open>'string'\<close> for \<open>StringValue\<close>, \<^verbatim>\<open>'object'\<close> for \<open>ObjectValue\<close> and for
  \<open>BuiltinPrototype\<close>, \<^verbatim>\<open>'function'\<close> for \<open>BuiltinFunction\<close> and \<^verbatim>\<open>'undefined'\<close> for
  \<open>Undefined\<close>; only \<open>Undefined\<close> is falsy among those that reach the test \<^verbatim>\<open>!entry\<close>.
\<close>

datatype property =
    Undefined
  | StringValue string
  | ObjectValue localization
  | BuiltinFunction
  | BuiltinPrototype

definition getProperty :: "localization \<Rightarrow> string \<Rightarrow> property" where
  "getProperty localization part =
     (case map_of localization part of
        Some (Str s) \<Rightarrow> StringValue s
      | Some (Obj sub) \<Rightarrow> ObjectValue sub
      | None \<Rightarrow>
          (if part = ''__proto__'' then BuiltinPrototype
           else if part \<in> set objectPrototypeFunctions then BuiltinFunction
           else Undefined))"

text \<open>\<^verbatim>\<open>key.split('/')\<close> and \<^verbatim>\<open>join('/')\<close>.\<close>

fun splitKey :: "string \<Rightarrow> string list" where
  "splitKey [] = [[]]"
| "splitKey (c # cs) =
     (if c = CHR ''/'' then [] # splitKey cs
      else (case splitKey cs of
              [] \<Rightarrow> [[c]]
            | part # parts \<Rightarrow> (c # part) # parts))"

fun joinParts :: "string list \<Rightarrow> string" where
  "joinParts [] = []"
| "joinParts [part] = part"
| "joinParts (part # parts) = part @ ''/'' @ joinParts parts"

text \<open>
  The messages of the two errors that \<^verbatim>\<open>insert\<close> throws: the first names the
  joined parts up to the conflicting one, the second the whole key.
\<close>

definition stringMessage :: "string list \<Rightarrow> string" where
  "stringMessage pre = ''String entry already exists at '' @ quoted (joinParts pre)"

definition catalogMessage :: "string \<Rightarrow> string" where
  "catalogMessage key = ''Multiple tranlation keys already exist at '' @ quoted key"

text \<open>
  The \<^verbatim>\<open>forEach\<close> of \<^verbatim>\<open>insert\<close>: \<open>i\<close> is the index of \<open>part\<close> in \<open>parts\<close>, the list
  argument holds the parts from index \<open>i\<close> on, and \<open>localization\<close> is the object that
  the variable of that name points to. The result is the thrown error, if any, and
  that object as the loop leaves it: an assignment made before a \<^verbatim>\<open>throw\<close> stays.
  \<^verbatim>\<open>parts.splice(0, i + 1)\<close> returns the first \<open>i + 1\<close> parts.

  At the last part, an inherited function is not an \<^verbatim>\<open>'object'\<close>, and the assignment
  gives the catalog an own property that hides it; the inherited \<^verbatim>\<open>__proto__\<close> is an
  \<^verbatim>\<open>'object'\<close>, so the call throws. At a part before the last, an inherited member is
  neither a string nor falsy: the variable \<^verbatim>\<open>localization\<close> is set to the built-in
  object, and the remaining parts read and write that object instead of a catalog.
  The state of the built-in objects is not part of the model; the result is \<open>None\<close>
  for such a call, and \<open>Some\<close> of the error and the catalog for every other call.
\<close>

fun insertLoop ::
  "string list \<Rightarrow> string \<Rightarrow> string \<Rightarrow> nat \<Rightarrow> string list \<Rightarrow> localization
     \<Rightarrow> (string option \<times> localization) option" where
  "insertLoop parts key val i [] localization = Some (None, localization)"
| "insertLoop parts key val i (part # rest) localization =
     (if i = length parts - 1 then
        (case getProperty localization part of
           ObjectValue sub \<Rightarrow>
             Some (Some (catalogMessage key), localization)
         | BuiltinPrototype \<Rightarrow>
             Some (Some (catalogMessage key), localization)
         | other \<Rightarrow>
             insertLoop parts key val (i + 1) rest
               (AList.update part (Str val) localization))
      else
        (case getProperty localization part of
           StringValue s \<Rightarrow>
             Some (Some (stringMessage (take (i + 1) parts)), localization)
         | ObjectValue sub \<Rightarrow>
             (case insertLoop parts key val (i + 1) rest sub of
                None \<Rightarrow> None
              | Some (err, sub') \<Rightarrow> Some (err, AList.update part (Obj sub') localization))
         | Undefined \<Rightarrow>
             (case insertLoop parts key val (i + 1) rest [] of
                None \<Rightarrow> None
              | Some (err, sub') \<Rightarrow> Some (err, AList.update part (Obj sub') localization))
         | BuiltinFunction \<Rightarrow> None
         | BuiltinPrototype \<Rightarrow> None))"

definition insert_key ::
  "localization \<Rightarrow> string \<Rightarrow> string \<Rightarrow> (string option \<times> localization) option" where
  "insert_key localization key val =
     insertLoop (splitKey key) key val 0 (splitKey key) localization"

text \<open>
  What a path of segments leads to in a catalog: the entry at the end of the path,
  if every segment before the last one holds a nested catalog.
\<close>

fun entryAt :: "localization \<Rightarrow> string list \<Rightarrow> entry option" where
  "entryAt localization [] = Some (Obj localization)"
| "entryAt localization [part] = map_of localization part"
| "entryAt localization (part # rest) =
     (case map_of localization part of
        Some (Obj sub) \<Rightarrow> entryAt sub rest
      | other \<Rightarrow> None)"

fun isStr :: "entry option \<Rightarrow> bool" where
  "isStr (Some (Str s)) = True"
| "isStr other = False"

fun isObj :: "entry option \<Rightarrow> bool" where
  "isObj (Some (Obj sub)) = True"
| "isObj other = False"

text \<open>
  The two structural conflicts of a key with a catalog: a string at a proper,
  non-empty prefix of the key's path, or a nested catalog at the full path.
\<close>

definition stringPrefixes :: "localization \<Rightarrow> string list \<Rightarrow> nat list" where
  "stringPrefixes localization parts =
     filter (\<lambda>j. isStr (entryAt localization (take (j + 1) parts)))
       [0 ..< length parts - 1]"

definition stringConflict :: "localization \<Rightarrow> string list \<Rightarrow> bool" where
  "stringConflict localization parts = (stringPrefixes localization parts \<noteq> [])"

definition catalogConflict :: "localization \<Rightarrow> string list \<Rightarrow> bool" where
  "catalogConflict localization parts = isObj (entryAt localization parts)"

text \<open>
  The keys none of whose segments names a member of \<^verbatim>\<open>Object.prototype\<close>: on these,
  \<^verbatim>\<open>localization[part]\<close> reads own properties only.
\<close>

definition plainPart :: "string \<Rightarrow> bool" where
  "plainPart part = (part \<noteq> ''__proto__'' \<and> part \<notin> set objectPrototypeFunctions)"

definition plainKey :: "string \<Rightarrow> bool" where
  "plainKey key = list_all plainPart (splitKey key)"

subsection \<open>The collector\<close>

text \<open>
  \<^verbatim>\<open>collect\<close>: \<open>loop\<close> pushes a matching node on \<open>result\<close> and otherwise calls itself
  on every child in turn; \<open>result\<close> is threaded through the calls.
\<close>

function loop :: "(node \<Rightarrow> bool) \<Rightarrow> node \<Rightarrow> node list \<Rightarrow> node list" where
  "loop fn n result =
     (if fn n then result @ [n] else fold (loop fn) (forEachChild n) result)"
  by pat_completeness auto
termination
proof (relation "measure (\<lambda>(fn, n, result). size n)", goal_cases)
  case 1
  show ?case by simp
next
  case (2 fn n result c)
  have mem: "size x \<le> size_list size xs" if "x \<in> set xs" for x :: node and xs
    using that by (induction xs) auto
  from 2 show ?case by (cases n) (auto dest!: mem)
qed

declare loop.simps [simp del]

definition collect :: "node \<Rightarrow> (node \<Rightarrow> bool) \<Rightarrow> node list" where
  "collect n fn = loop fn n []"

text \<open>
  The same walk with a log: every call of \<open>loop\<close> also records the position of its
  node, the list of child indices that leads from the root to it.
\<close>

function loopVisits ::
  "(node \<Rightarrow> bool) \<Rightarrow> nat list \<Rightarrow> node \<Rightarrow> node list \<times> nat list list
     \<Rightarrow> node list \<times> nat list list" where
  "loopVisits fn pos n (result, visited) =
     (if fn n then (result @ [n], visited @ [pos])
      else fold (\<lambda>(k, c). loopVisits fn (pos @ [k]) c)
             (zip [0 ..< length (forEachChild n)] (forEachChild n))
             (result, visited @ [pos]))"
  by pat_completeness auto
termination
proof (relation "measure (\<lambda>(fn, pos, n, st). size n)", goal_cases)
  case 1
  show ?case by simp
next
  case (2 fn pos n result visited kc k c)
  have mem: "size x \<le> size_list size xs" if "x \<in> set xs" for x :: node and xs
    using that by (induction xs) auto
  from 2 have "c \<in> set (forEachChild n)"
    by (auto dest: set_zip_rightD)
  then show ?case by (cases n) (auto dest!: mem)
qed

declare loopVisits.simps [simp del]

definition visits :: "node \<Rightarrow> (node \<Rightarrow> bool) \<Rightarrow> nat list list" where
  "visits n fn = snd (loopVisits fn [] n ([], []))"

fun nodeAt :: "node \<Rightarrow> nat list \<Rightarrow> node option" where
  "nodeAt n [] = Some n"
| "nodeAt n (k # pos) =
     (if k < length (forEachChild n) then nodeAt (forEachChild n ! k) pos else None)"

text \<open>
  A position is reachable by the walk when it exists in the tree and the predicate
  fails on every node strictly above it.
\<close>

fun reachable :: "(node \<Rightarrow> bool) \<Rightarrow> node \<Rightarrow> nat list \<Rightarrow> bool" where
  "reachable fn n [] = True"
| "reachable fn n (k # pos) =
     (\<not> fn n \<and> k < length (forEachChild n) \<and> reachable fn (forEachChild n ! k) pos)"

text \<open>All nodes of a tree in depth-first order, parents before children.\<close>

function preorder :: "node \<Rightarrow> node list" where
  "preorder n = n # concat (map preorder (forEachChild n))"
  by pat_completeness auto
termination
proof (relation "measure size", goal_cases)
  case 1
  show ?case by simp
next
  case (2 n c)
  have mem: "size x \<le> size_list size xs" if "x \<in> set xs" for x :: node and xs
    using that by (induction xs) auto
  from 2 show ?case by (cases n) (auto dest!: mem)
qed

declare preorder.simps [simp del]

subsection \<open>Per-file extraction\<close>

record extractionOptions =
  root :: string
  outputPath :: string
  exclude :: "string option"
  logs :: "string option"
  pattern :: "string option"
  merge :: bool

definition isExcluded :: "extractionOptions \<Rightarrow> string \<Rightarrow> bool" where
  "isExcluded options key = (truthy (exclude options) \<and> prefix (the (exclude options)) key)"

text \<open>
  The body of a \<^verbatim>\<open>try\<close> block that inserts one pair: the state is the catalog of the
  file and the error sink. A thrown error leaves the block; its message is pushed by
  the \<^verbatim>\<open>catch\<close>. The results are \<open>None\<close> where that of \<^verbatim>\<open>insert\<close> is.
\<close>

definition insertUnlessExcluded ::
  "extractionOptions \<Rightarrow> string \<times> string \<Rightarrow> localization
     \<Rightarrow> (string option \<times> localization) option" where
  "insertUnlessExcluded options pair localization =
     (if \<not> isExcluded options (fst pair)
      then insert_key localization (fst pair) (snd pair)
      else Some (None, localization))"

definition localizeCallStep ::
  "extractionOptions \<Rightarrow> node \<Rightarrow> localization \<times> string list
     \<Rightarrow> (localization \<times> string list) option" where
  "localizeCallStep options call st =
     (case extractFromLocalizeCall call of
        Inl message \<Rightarrow> Some (fst st, snd st @ [message])
      | Inr extracted \<Rightarrow>
          (case insertUnlessExcluded options extracted (fst st) of
             None \<Rightarrow> None
           | Some (Some message, localization) \<Rightarrow> Some (localization, snd st @ [message])
           | Some (None, localization) \<Rightarrow> Some (localization, snd st)))"

definition localizedCommandStep ::
  "extractionOptions \<Rightarrow> node \<Rightarrow> localization \<times> string list
     \<Rightarrow> (localization \<times> string list) option" where
  "localizedCommandStep options command st =
     (case extractFromLocalizedCommandCall command of
        Inl message \<Rightarrow> Some (fst st, snd st @ [message])
      | Inr extracted \<Rightarrow>
          (case insertUnlessExcluded options (label extracted) (fst st) of
             None \<Rightarrow> None
           | Some (Some message, localization) \<Rightarrow> Some (localization, snd st @ [message])
           | Some (None, localization) \<Rightarrow>
               (case category extracted of
                  None \<Rightarrow> Some (localization, snd st)
                | Some cat \<Rightarrow>
                    (case insertUnlessExcluded options cat localization of
                       None \<Rightarrow> None
                     | Some (Some message, localization') \<Rightarrow>
                         Some (localization', snd st @ [message])
                     | Some (None, localization') \<Rightarrow> Some (localization', snd st)))))"

text \<open>
  A \<^verbatim>\<open>for ... of\<close> loop whose body is the given step: the steps are taken in the
  order of the list, each on the state that the one before it has left.
\<close>

fun forOf :: "('a \<Rightarrow> 's \<Rightarrow> 's option) \<Rightarrow> 'a list \<Rightarrow> 's \<Rightarrow> 's option" where
  "forOf step [] st = Some st"
| "forOf step (x # xs) st =
     (case step x st of
        None \<Rightarrow> None
      | Some st' \<Rightarrow> forOf step xs st')"

text \<open>
  \<^verbatim>\<open>extractFromFile\<close>, from the parsed source file on (reading and parsing the file
  are the file system's and the parser's): the catalog of the file, and the error
  sink with the messages of this file appended.
\<close>

definition extractFromFile ::
  "node \<Rightarrow> extractionOptions \<Rightarrow> string list \<Rightarrow> (localization \<times> string list) option" where
  "extractFromFile sourceFile options errors =
     (case forOf (localizeCallStep options) (collect sourceFile isLocalizeCall) ([], errors) of
        None \<Rightarrow> None
      | Some st \<Rightarrow>
          forOf (localizedCommandStep options) (collect sourceFile isCommandLocalizeUtility) st)"




subsection \<open>Aggregation and merge\<close>

text \<open>
  Modelled from the spec: \<^verbatim>\<open>deepmerge\<close>, the merge function that \<^verbatim>\<open>extract\<close> imports
  from a library outside the sources. For every key of either operand: two nested
  catalogs are merged recursively; in every other case where the later operand
  defines the key, its value is taken; a key of the earlier operand alone is kept.
\<close>

function deepmerge :: "localization \<Rightarrow> localization \<Rightarrow> localization" where
  "deepmerge earlier [] = earlier"
| "deepmerge earlier ((k, v) # later) =
     deepmerge
       (AList.update k
          (case v of
             Str s \<Rightarrow> v
           | Obj new \<Rightarrow>
               (case map_of earlier k of
                  Some (Obj old) \<Rightarrow> Obj (deepmerge old new)
                | other \<Rightarrow> v))
          earlier)
       later"
  by pat_completeness auto
termination
  by (relation "measure (\<lambda>(earlier, later). size (Obj later))") auto

text \<open>
  The two uses of the merge in \<^verbatim>\<open>extract\<close>: each file's catalog is merged over the
  aggregate, in the order of the files, and in merge mode the aggregate is merged
  over the catalog read from the output file, when that file exists.
\<close>

definition aggregateStep ::
  "extractionOptions \<Rightarrow> node \<Rightarrow> localization \<times> string list
     \<Rightarrow> (localization \<times> string list) option" where
  "aggregateStep options sourceFile st =
     (case extractFromFile sourceFile options (snd st) of
        None \<Rightarrow> None
      | Some (fileLocalization, errors) \<Rightarrow>
          Some (deepmerge (fst st) fileLocalization, errors))"

definition aggregateFiles ::
  "extractionOptions \<Rightarrow> node list \<Rightarrow> (localization \<times> string list) option" where
  "aggregateFiles options files = forOf (aggregateStep options) files ([], [])"

definition mergeExisting ::
  "extractionOptions \<Rightarrow> localization option \<Rightarrow> localization \<Rightarrow> localization" where
  "mergeExisting options existing localization =
     (case existing of
        Some old \<Rightarrow> (if merge options then deepmerge old localization else localization)
      | None \<Rightarrow> localization)"

subsection \<open>Sample source files\<close>

text \<open>
  Small trees of the file \<^verbatim>\<open>a.ts\<close>, as the parser delivers them, on which the
  functions above are evaluated below. \<open>at l c t\<close> is the information of a node whose
  \<^verbatim>\<open>pos\<close> is at line \<open>l\<close>, character \<open>c\<close> (both counted from zero) and whose source
  text is \<open>t\<close>. The \<^verbatim>\<open>pos\<close> of a node is where the token before it ends: the blanks
  and line breaks in front of a node belong to it, so a statement that begins a line
  has its \<^verbatim>\<open>pos\<close> at the end of the line above.
\<close>

definition at :: "nat \<Rightarrow> nat \<Rightarrow> string \<Rightarrow> info" where
  "at l c t = \<lparr>sourcePath = ''a.ts'', posLine = l, posCharacter = c, sourceText = t\<rparr>"

definition literal :: "nat \<Rightarrow> nat \<Rightarrow> string \<Rightarrow> node" where
  "literal l c s = StringLiteral (at l c (quoted s)) s"

definition ident :: "nat \<Rightarrow> nat \<Rightarrow> string \<Rightarrow> node" where
  "ident l c s = Identifier (at l c s) s"

text \<open>
  The callee \<^verbatim>\<open>nls.localize\<close> with its \<^verbatim>\<open>pos\<close> at \<open>(l, c)\<close> and the name after the dot
  at \<open>(l', c')\<close>.
\<close>

definition localizeCallee :: "nat \<Rightarrow> nat \<Rightarrow> nat \<Rightarrow> nat \<Rightarrow> node" where
  "localizeCallee l c l' c' =
     OtherNode (at l c ''nls.localize'') [ident l c ''nls'', ident l' c' ''localize'']"

definition commandCallee :: "nat \<Rightarrow> nat \<Rightarrow> nat \<Rightarrow> nat \<Rightarrow> node" where
  "commandCallee l c l' c' =
     OtherNode (at l c ''Command.toLocalizedCommand'')
       [ident l c ''Command'', ident l' c' ''toLocalizedCommand'']"

text \<open>The texts of a list of nodes, with a separator between them.\<close>

fun separated :: "string \<Rightarrow> string list \<Rightarrow> string" where
  "separated sep [] = []"
| "separated sep [t] = t"
| "separated sep (t # ts) = t @ sep @ separated sep ts"

text \<open>
  The statements \<^verbatim>\<open>nls.localize('k')\<close> and \<^verbatim>\<open>nls.localize('k', 'v')\<close> written at the
  start of line \<open>l'\<close>, with \<^verbatim>\<open>pos\<close> at \<open>(l, c)\<close>: the start of the file, or the end of
  the statement on the line above.
\<close>

definition oneArgumentCall :: "nat \<Rightarrow> nat \<Rightarrow> nat \<Rightarrow> string \<Rightarrow> node" where
  "oneArgumentCall l c l' k =
     CallExpression (at l c (''nls.localize('' @ quoted k @ '')'')) (localizeCallee l c l' 4)
       [literal l' 13 k]"

definition twoArgumentCall :: "nat \<Rightarrow> nat \<Rightarrow> nat \<Rightarrow> string \<Rightarrow> string \<Rightarrow> node" where
  "twoArgumentCall l c l' k v =
     CallExpression (at l c (''nls.localize('' @ quoted k @ '', '' @ quoted v @ '')''))
       (localizeCallee l c l' 4)
       [literal l' 13 k, literal l' (16 + length k) v]"

text \<open>
  A source file with the given statements, one on each line, and an expression
  statement: its \<^verbatim>\<open>pos\<close> and its text are those of its expression.
\<close>

definition sourceFileOf :: "node list \<Rightarrow> node" where
  "sourceFileOf statements =
     OtherNode (at 0 0 (separated [CHR 0x0A] (map getText statements))) statements"

definition statement :: "node \<Rightarrow> node" where
  "statement expression = OtherNode (nodeInfo expression) [expression]"

text \<open>
  The file of the two lines \<^verbatim>\<open>nls.localize('k', 'v')\<close> and \<^verbatim>\<open>nls.localize('k2')\<close>: the
  first line has 22 characters.
\<close>

definition goodCall :: node where
  "goodCall = twoArgumentCall 0 0 0 ''k'' ''v''"

definition badCall :: node where
  "badCall = oneArgumentCall 0 22 1 ''k2''"

definition sampleFile :: node where
  "sampleFile = sourceFileOf [statement goodCall, statement badCall]"


text \<open>
  The file of the three lines \<^verbatim>\<open>nls.localize('k', 'v')\<close>, \<^verbatim>\<open>nls.localize('k/x', 'w')\<close>
  and \<^verbatim>\<open>nls.localize('j', 'u')\<close>: the second line has 24 characters.
\<close>

definition conflictFile :: node where
  "conflictFile =
     sourceFileOf
       [statement goodCall, statement (twoArgumentCall 0 22 1 ''k/x'' ''w''),
        statement (twoArgumentCall 1 24 2 ''j'' ''u'')]"

text \<open>
  \<^verbatim>\<open>nls.localize('outer', nls.localize('k', 'v'))\<close>: a call whose second argument is
  again a call, and the file of this line, which has 45 characters, and the line
  \<^verbatim>\<open>nls.localize('k2')\<close>.
\<close>

definition innerCall :: node where
  "innerCall =
     CallExpression (at 0 21 (''nls.localize('' @ quoted ''k'' @ '', '' @ quoted ''v'' @ '')''))
       (localizeCallee 0 21 0 26)
       [literal 0 35 ''k'', literal 0 39 ''v'']"

definition nestedCall :: node where
  "nestedCall =
     CallExpression
       (at 0 0 (''nls.localize('' @ quoted ''outer'' @ '', '' @ getText innerCall @ '')''))
       (localizeCallee 0 0 0 4)
       [literal 0 13 ''outer'', innerCall]"

definition nestedFile :: node where
  "nestedFile = sourceFileOf [statement nestedCall, statement (oneArgumentCall 0 45 1 ''k2'')]"

text \<open>
  The object literal of a command with the given members, and the call
  \<^verbatim>\<open>Command.toLocalizedCommand(obj, ...)\<close> with the given further arguments, at the
  start of a file. The members carry schematic positions and texts: of this call,
  only the position of the call itself enters a message below.
\<close>

definition assignment :: "string \<Rightarrow> string \<Rightarrow> node" where
  "assignment k v = PropertyAssignment (at 0 30 ''..'') (ident 0 30 k) (literal 0 40 v)"

definition commandCall :: "node list \<Rightarrow> node list \<Rightarrow> node" where
  "commandCall members others =
     CallExpression (at 0 0 ''Command.toLocalizedCommand(..)'') (commandCallee 0 0 0 8)
       (ObjectLiteralExpression (at 0 27 ''{..}'') members # others)"

text \<open>
  The member \<^verbatim>\<open>k: 'v'\<close> of an object literal written as \<^verbatim>\<open>{ k: 'v', ... }\<close>, with its
  \<^verbatim>\<open>pos\<close> at \<open>(l, c)\<close>, behind the brace or comma before it; and the statement
  \<^verbatim>\<open>Command.toLocalizedCommand({ ... }, ...)\<close> written at the start of line \<open>l'\<close>, with
  \<^verbatim>\<open>pos\<close> at \<open>(l, c)\<close>.
\<close>

definition assignmentAt :: "nat \<Rightarrow> nat \<Rightarrow> string \<Rightarrow> string \<Rightarrow> node" where
  "assignmentAt l c k v =
     PropertyAssignment (at l c (k @ '': '' @ quoted v)) (ident l c k)
       (literal l (c + length k + 2) v)"

definition objectLiteral :: "nat \<Rightarrow> nat \<Rightarrow> node list \<Rightarrow> node" where
  "objectLiteral l c members =
     ObjectLiteralExpression (at l c (''{ '' @ separated '', '' (map getText members) @ '' }''))
       members"

definition commandCallAt :: "nat \<Rightarrow> nat \<Rightarrow> nat \<Rightarrow> node list \<Rightarrow> node list \<Rightarrow> node" where
  "commandCallAt l c l' members others =
     CallExpression
       (at l c
          (''Command.toLocalizedCommand('' @
           separated '', '' (map getText (objectLiteral l' 27 members # others)) @ '')''))
       (commandCallee l c l' 8)
       (objectLiteral l' 27 members # others)"






text \<open>
  Options without an exclusion prefix, options that exclude the keys starting with
  \<^verbatim>\<open>k\<close>, and options whose exclusion prefix is the empty string.
\<close>

definition plainOptions :: extractionOptions where
  "plainOptions =
     \<lparr>root = ''.'', outputPath = ''out.json'', exclude = None, logs = None,
      pattern = None, merge = False\<rparr>"

definition excludingOptions :: extractionOptions where
  "excludingOptions = plainOptions\<lparr>exclude := Some ''k''\<rparr>"

definition emptyPrefixOptions :: extractionOptions where
  "emptyPrefixOptions = plainOptions\<lparr>exclude := Some []\<rparr>"

section \<open>String literal decoding: properties\<close>

lemma unescapeLoop_scan:
  "i \<le> length str \<Longrightarrow> unescapeLoop str i result = result @ unescapeScan (drop i str)"
proof (induction str i result rule: unescapeLoop.induct)
  case (1 str i result)
  show ?case
  proof (cases "i < length str")
    case False
    with 1(3) show ?thesis by (subst unescapeLoop.simps) simp
  next
    case True
    then obtain c rest where d: "drop i str = c # rest" "c = str ! i"
      by (metis Cons_nth_drop_Suc)
    show ?thesis
    proof (cases "str ! i = backslash \<and> i + 1 < length str \<and> unescapeMap (str ! (i + 1)) \<noteq> None")
      case esc: True
      then have d2: "drop i str = str ! i # str ! (i + 1) # drop (i + 2) str"
        using True by (metis Cons_nth_drop_Suc Suc_eq_plus1 add_2_eq_Suc')
      have "unescapeLoop str i result = unescapeLoop str (i + 2) (result @ [the (unescapeMap (str ! (i + 1)))])"
        using True esc by (subst unescapeLoop.simps) (simp add: Let_def)
      also have "\<dots> = (result @ [the (unescapeMap (str ! (i + 1)))]) @ unescapeScan (drop (i + 2) str)"
        using 1(1)[OF True refl] esc True by simp
      finally show ?thesis using esc by (simp add: d2)
    next
      case noesc: False
      have "unescapeLoop str i result = unescapeLoop str (i + 1) (result @ [str ! i])"
        using True noesc by (subst unescapeLoop.simps) (auto simp: Let_def)
      also have "\<dots> = (result @ [str ! i]) @ unescapeScan (drop (i + 1) str)"
        using 1(2)[OF True refl] noesc True by simp
      finally have eq: "unescapeLoop str i result = result @ str ! i # unescapeScan (drop (i + 1) str)"
        by simp
      have d1: "drop i str = str ! i # drop (i + 1) str"
        using True by (simp add: Cons_nth_drop_Suc)
      show ?thesis
      proof (cases "drop (i + 1) str")
        case Nil
        then show ?thesis using eq d1 by simp
      next
        case (Cons e es)
        then have "i + 1 < length str" by (metis drop_eq_Nil2 list.distinct(1) not_le)
        moreover have "e = str ! (i + 1)" using Cons \<open>i + 1 < length str\<close>
          by (metis Cons_nth_drop_Suc list.inject)
        ultimately show ?thesis using eq d1 Cons noesc by auto
      qed
    qed
  qed
qed

lemma unescapeString_scan: "unescapeString str = unescapeScan str"
  by (simp add: unescapeString_def unescapeLoop_scan)

lemma unescapeScan_fixed: "\<not> hasEscape t \<Longrightarrow> unescapeScan t = t"
  by (induction t rule: unescapeScan.induct) auto

lemma unescapeScan_plain: "c \<noteq> backslash \<Longrightarrow> unescapeScan (c # cs) = c # unescapeScan cs"
  by (cases cs) simp_all

lemma unescapeMap_backslash: "unescapeMap backslash = Some backslash"
  by (simp add: unescapeMap_def backslash_def)

lemma unescapeMap_known:
  "map unescapeMap
     [CHR 0x27, CHR 0x22, CHR 0x5C, CHR ''n'', CHR ''r'', CHR ''t'', CHR ''b'', CHR ''f'']
   = map Some [CHR 0x27, CHR 0x22, CHR 0x5C, CHR 0x0A, CHR 0x0D, CHR 0x09, CHR 0x08, CHR 0x0C]"
  by (simp add: unescapeMap_def)

lemma unescapeMap_unknown:
  "d \<notin> set [CHR 0x27, CHR 0x22, CHR 0x5C, CHR ''n'', CHR ''r'', CHR ''t'', CHR ''b'', CHR ''f'']
     \<Longrightarrow> unescapeMap d = None"
  by (simp add: unescapeMap_def)

text \<open>
  C3 (as amended). \<^verbatim>\<open>unescapeString\<close> reads its input from left to right. A backslash
  followed by one of the eight characters quote, double quote, backslash, n, r, t, b, f
  is replaced, together with that character, by the single character it stands for
  (quote, double quote, backslash, line feed, carriage return, tab, backspace, form
  feed); a backslash followed by any other character stays, and so does that
  character; every other character is copied. So the text a, backslash, n, b becomes
  a, line feed, b, and the text a, backslash, q, b is unchanged. A text in which no
  backslash is followed by one of the eight characters is returned unchanged.
\<close>

theorem unescapeString_decoding:
  "unescapeString [] = []
   \<and> unescapeString [c] = [c]
   \<and> (unescapeMap d = Some r \<longrightarrow>
        unescapeString (backslash # d # cs) = r # unescapeString cs)
   \<and> (unescapeMap d = None \<longrightarrow>
        unescapeString (backslash # d # cs) = backslash # d # unescapeString cs)
   \<and> (c \<noteq> backslash \<longrightarrow> unescapeString (c # cs) = c # unescapeString cs)
   \<and> map unescapeMap
         [CHR 0x27, CHR 0x22, CHR 0x5C, CHR ''n'', CHR ''r'', CHR ''t'', CHR ''b'', CHR ''f'']
       = map Some
           [CHR 0x27, CHR 0x22, CHR 0x5C, CHR 0x0A, CHR 0x0D, CHR 0x09, CHR 0x08, CHR 0x0C]
   \<and> (d \<notin> set [CHR 0x27, CHR 0x22, CHR 0x5C, CHR ''n'', CHR ''r'', CHR ''t'',
                    CHR ''b'', CHR ''f'']
        \<longrightarrow> unescapeMap d = None)
   \<and> unescapeString [CHR ''a'', backslash, CHR ''n'', CHR ''b''] = [CHR ''a'', CHR 0x0A, CHR ''b'']
   \<and> unescapeString [CHR ''a'', backslash, CHR ''q'', CHR ''b'']
       = [CHR ''a'', backslash, CHR ''q'', CHR ''b'']
   \<and> (\<not> hasEscape t \<longrightarrow> unescapeString t = t)"
proof -
  have known: "unescapeString (backslash # d # cs) = r # unescapeString cs"
    if "unescapeMap d = Some r"
    using that by (simp add: unescapeString_scan)
  have unknown: "unescapeString (backslash # d # cs) = backslash # d # unescapeString cs"
    if "unescapeMap d = None"
  proof -
    from that have "d \<noteq> backslash"
      using unescapeMap_backslash by auto
    with that show ?thesis
      by (simp add: unescapeString_scan unescapeScan_plain)
  qed
  have plain: "unescapeString (c # cs) = c # unescapeString cs" if "c \<noteq> backslash"
    using that by (simp add: unescapeString_scan unescapeScan_plain)
  have ex1: "unescapeString [CHR ''a'', backslash, CHR ''n'', CHR ''b''] = [CHR ''a'', CHR 0x0A, CHR ''b'']"
    by (simp add: unescapeString_scan backslash_def unescapeMap_def)
  have ex2: "unescapeString [CHR ''a'', backslash, CHR ''q'', CHR ''b'']
       = [CHR ''a'', backslash, CHR ''q'', CHR ''b'']"
    by (simp add: unescapeString_scan backslash_def unescapeMap_def)
  have fixed: "unescapeString t = t" if "\<not> hasEscape t"
    using that by (simp add: unescapeString_scan unescapeScan_fixed)
  have "unescapeString [] = []" "unescapeString [c] = [c]"
    by (simp_all add: unescapeString_scan)
  with known unknown plain ex1 ex2 fixed unescapeMap_known unescapeMap_unknown
  show ?thesis
    by (intro conjI impI) assumption+
qed

text \<open>The decoding rules of C3 at concrete texts.\<close>

theorem unescapeString_decoding_witness:
  "unescapeMap (CHR ''t'') = Some (CHR 0x09)
   \<and> unescapeString [backslash, CHR ''t'', CHR ''x''] = [CHR 0x09, CHR ''x'']
   \<and> unescapeMap (CHR ''q'') = None
   \<and> unescapeString [backslash, CHR ''q'', CHR ''x''] = [backslash, CHR ''q'', CHR ''x'']
   \<and> CHR ''x'' \<noteq> backslash
   \<and> \<not> hasEscape [CHR ''x'', backslash]
   \<and> unescapeString [CHR ''x'', backslash] = [CHR ''x'', backslash]"
proof -
  have t: "unescapeMap (CHR ''t'') = Some (CHR 0x09)"
    and q: "unescapeMap (CHR ''q'') = None"
    and x: "CHR ''x'' \<noteq> backslash"
    and h: "\<not> hasEscape [CHR ''x'', backslash]"
    by (simp_all add: unescapeMap_def backslash_def)
  from t have a: "unescapeString [backslash, CHR ''t'', CHR ''x''] = [CHR 0x09, CHR ''x'']"
    using unescapeString_decoding [where d = "CHR ''t''" and r = "CHR 0x09" and cs = "[CHR ''x'']"]
    by simp
  from q x have b: "unescapeString [backslash, CHR ''q'', CHR ''x''] = [backslash, CHR ''q'', CHR ''x'']"
    using unescapeString_decoding [where c = "CHR ''x''" and d = "CHR ''q''" and cs = "[CHR ''x'']"]
    by simp
  from h have c: "unescapeString [CHR ''x'', backslash] = [CHR ''x'', backslash]"
    using unescapeString_decoding [where t = "[CHR ''x'', backslash]"]
    by simp
  from t q x h a b c show ?thesis by simp
qed

text \<open>
  Unescaping is not idempotent: the text backslash, backslash, n unescapes to
  backslash, n, which is the output of an unescaping and unescapes once more, to a
  line feed.
\<close>

theorem unescapeString_idempotent_counterexample:
  "unescapeString (unescapeString [backslash, backslash, CHR ''n''])
     \<noteq> unescapeString [backslash, backslash, CHR ''n'']"
  by (simp add: unescapeString_scan backslash_def unescapeMap_def)

section \<open>Catalog insertion: properties\<close>

lemma getProperty_own:
  "map_of localization part = Some e \<Longrightarrow>
   getProperty localization part = (case e of Str s \<Rightarrow> StringValue s | Obj sub \<Rightarrow> ObjectValue sub)"
  by (simp add: getProperty_def split: entry.splits)

lemma getProperty_plain:
  "plainPart part \<Longrightarrow> map_of localization part = None \<Longrightarrow>
   getProperty localization part = Undefined"
  by (simp add: getProperty_def plainPart_def)

lemma isObj_iff: "isObj x = (\<exists>sub. x = Some (Obj sub))"
  by (cases x rule: isObj.cases) simp_all

lemma isStr_iff: "isStr x = (\<exists>s. x = Some (Str s))"
  by (cases x rule: isStr.cases) simp_all

lemma entryAt_Cons:
  "ps \<noteq> [] \<Longrightarrow> entryAt localization (part # ps) =
     (case map_of localization part of Some (Obj sub) \<Rightarrow> entryAt sub ps | other \<Rightarrow> None)"
  by (cases ps) (auto split: option.splits entry.splits)

lemma entryAt_empty: "ps \<noteq> [] \<Longrightarrow> entryAt [] ps = None"
proof (cases ps)
  case Nil
  assume "ps \<noteq> []"
  with Nil show ?thesis by simp
next
  case (Cons part rest)
  then show ?thesis by (cases rest) simp_all
qed

lemma stringPrefixes_single: "stringPrefixes localization [part] = []"
  by (simp add: stringPrefixes_def)

lemma stringPrefixes_Cons:
  assumes "rest \<noteq> []"
  shows "stringPrefixes localization (part # rest) =
     (case map_of localization part of
        Some (Str s) \<Rightarrow> [0]
      | Some (Obj sub) \<Rightarrow> map Suc (stringPrefixes sub rest)
      | None \<Rightarrow> [])"
proof -
  from assms obtain m where m: "length rest = Suc m"
    by (cases rest) auto
  have upt: "[0 ..< Suc m] = 0 # map Suc [0 ..< m]"
    by (simp add: upt_conv_Cons map_Suc_upt del: upt_Suc)
  have step: "entryAt localization (part # take (Suc j) rest) =
     (case map_of localization part of
        Some (Obj sub) \<Rightarrow> entryAt sub (take (Suc j) rest) | other \<Rightarrow> None)" for j
    using assms by (auto simp: entryAt_Cons split: option.splits entry.splits)
  show ?thesis
    using m by (simp add: stringPrefixes_def upt filter_map comp_def step
        split: option.splits entry.splits del: upt_Suc)
qed

lemma stringPrefixes_empty: "stringPrefixes [] ps = []"
proof (cases ps)
  case Nil
  then show ?thesis by (simp add: stringPrefixes_def)
next
  case (Cons part rest)
  then show ?thesis
    by (cases "rest = []") (simp_all add: stringPrefixes_single stringPrefixes_Cons)
qed

lemma entryAt_no_stringPrefixes:
  "entryAt localization ps \<noteq> None \<Longrightarrow> stringPrefixes localization ps = []"
proof (induction ps arbitrary: localization)
  case Nil
  then show ?case by (simp add: stringPrefixes_def)
next
  case (Cons part rest)
  show ?case
  proof (cases "rest = []")
    case True
    then show ?thesis by (simp add: stringPrefixes_single)
  next
    case False
    with Cons show ?thesis
      by (auto simp: stringPrefixes_Cons entryAt_Cons split: option.splits entry.splits)
  qed
qed

lemma last_index:
  "i + length (part # rest) = length parts \<Longrightarrow> (i = length parts - 1) = (rest = [])"
  by (cases rest) auto

text \<open>
  The two conflicts are met on a path of own properties, so they are found whatever
  the segments are called, and before anything has been assigned.
\<close>

lemma insertLoop_string_conflict:
  "i + length ps = length parts \<Longrightarrow> stringPrefixes localization ps \<noteq> [] \<Longrightarrow>
   insertLoop parts key val i ps localization =
     Some (Some (stringMessage (take (i + hd (stringPrefixes localization ps) + 1) parts)),
           localization)"
proof (induction ps arbitrary: i localization)
  case Nil
  then show ?case by (simp add: stringPrefixes_def)
next
  case (Cons part rest)
  from Cons.prems(2) have rest: "rest \<noteq> []"
    by (auto simp: stringPrefixes_single)
  with last_index[OF Cons.prems(1)] have notlast: "i \<noteq> length parts - 1"
    by simp
  from Cons.prems(1) have len: "Suc i + length rest = length parts" by simp
  show ?case
  proof (cases "map_of localization part")
    case None
    with rest Cons.prems(2) show ?thesis by (simp add: stringPrefixes_Cons)
  next
    case (Some en)
    show ?thesis
    proof (cases en)
      case (Str s)
      with Some rest notlast show ?thesis
        by (simp add: stringPrefixes_Cons getProperty_own)
    next
      case (Obj sub)
      with Some rest Cons.prems(2) have sub: "stringPrefixes sub rest \<noteq> []"
        by (simp add: stringPrefixes_Cons)
      from Cons.IH[OF len sub] Obj Some rest notlast sub show ?thesis
        by (simp add: stringPrefixes_Cons update_triv hd_map getProperty_own)
    qed
  qed
qed

lemma insertLoop_catalog_conflict:
  "i + length ps = length parts \<Longrightarrow> ps \<noteq> [] \<Longrightarrow> isObj (entryAt localization ps) \<Longrightarrow>
   insertLoop parts key val i ps localization = Some (Some (catalogMessage key), localization)"
proof (induction ps arbitrary: i localization)
  case Nil
  then show ?case by simp
next
  case (Cons part rest)
  show ?case
  proof (cases "rest = []")
    case True
    with last_index[OF Cons.prems(1)] have "i = length parts - 1" by simp
    with True Cons.prems(3) show ?thesis
      by (auto simp: isObj_iff getProperty_own)
  next
    case False
    with last_index[OF Cons.prems(1)] have notlast: "i \<noteq> length parts - 1" by simp
    from Cons.prems(1) have len: "Suc i + length rest = length parts" by simp
    from False Cons.prems(3) obtain sub where
      sub: "map_of localization part = Some (Obj sub)" "isObj (entryAt sub rest)"
      by (auto simp: entryAt_Cons isObj_iff split: option.splits entry.splits)
    from Cons.IH[OF len False sub(2)] sub(1) notlast show ?thesis
      by (simp add: update_triv getProperty_own)
  qed
qed

text \<open>
  Without a conflict, and when no segment names a member of \<^verbatim>\<open>Object.prototype\<close>, the
  loop ends without an error and the path leads to the value.
\<close>

lemma insertLoop_plain_success:
  "i + length ps = length parts \<Longrightarrow> ps \<noteq> [] \<Longrightarrow> list_all plainPart ps \<Longrightarrow>
   stringPrefixes localization ps = [] \<Longrightarrow> \<not> isObj (entryAt localization ps) \<Longrightarrow>
   \<exists>localization'. insertLoop parts key val i ps localization = Some (None, localization')
      \<and> entryAt localization' ps = Some (Str val)"
proof (induction ps arbitrary: i localization)
  case Nil
  then show ?case by simp
next
  case (Cons part rest)
  from Cons.prems(3) have plain: "plainPart part" "list_all plainPart rest"
    by simp_all
  show ?case
  proof (cases "rest = []")
    case True
    with last_index[OF Cons.prems(1)] have last: "i = length parts - 1" by simp
    show ?thesis
    proof (cases "map_of localization part")
      case None
      with True last plain(1) show ?thesis
        by (simp add: getProperty_plain update_conv')
    next
      case (Some en)
      with True Cons.prems(5) obtain s where "en = Str s"
        by (cases en) simp_all
      with Some True last show ?thesis
        by (simp add: getProperty_own update_conv')
    qed
  next
    case False
    with last_index[OF Cons.prems(1)] have notlast: "i \<noteq> length parts - 1" by simp
    from Cons.prems(1) have len: "Suc i + length rest = length parts" by simp
    show ?thesis
    proof (cases "map_of localization part")
      case None
      from Cons.IH[OF len False plain(2), of "[]"] False obtain sub' where
        "insertLoop parts key val (Suc i) rest [] = Some (None, sub')"
        "entryAt sub' rest = Some (Str val)"
        by (auto simp: stringPrefixes_empty entryAt_empty)
      with None notlast False plain(1) show ?thesis
        by (simp add: getProperty_plain entryAt_Cons update_conv')
    next
      case (Some en)
      show ?thesis
      proof (cases en)
        case (Str s)
        with Some False Cons.prems(4) show ?thesis
          by (simp add: stringPrefixes_Cons)
      next
        case (Obj sub)
        with Some False Cons.prems(4,5)
        have "stringPrefixes sub rest = []" "\<not> isObj (entryAt sub rest)"
          by (simp_all add: stringPrefixes_Cons entryAt_Cons)
        from Cons.IH[OF len False plain(2) this] obtain sub' where
          "insertLoop parts key val (Suc i) rest sub = Some (None, sub')"
          "entryAt sub' rest = Some (Str val)"
          by auto
        with Obj Some notlast False show ?thesis
          by (simp add: getProperty_own entryAt_Cons update_conv')
      qed
    qed
  qed
qed

lemma splitKey_nonempty: "splitKey key \<noteq> []"
  by (induction key) (auto split: list.splits)


lemma stringPrefixes_unique:
  "j < length ps - 1 \<Longrightarrow> isStr (entryAt localization (take (j + 1) ps)) \<Longrightarrow>
   stringPrefixes localization ps = [j]"
proof (induction ps arbitrary: j localization)
  case Nil
  then show ?case by simp
next
  case (Cons part rest)
  from Cons.prems(1) have rest: "rest \<noteq> []" by auto
  show ?case
  proof (cases j)
    case 0
    with Cons.prems(2) rest show ?thesis
      by (auto simp: stringPrefixes_Cons isStr_iff)
  next
    case (Suc k)
    with rest have "take (Suc k) rest \<noteq> []" by simp
    with Cons.prems(2) Suc obtain sub where
      sub: "map_of localization part = Some (Obj sub)" "isStr (entryAt sub (take (k + 1) rest))"
      by (auto simp: entryAt_Cons split: option.splits entry.splits)
    from Cons.prems(1) Suc have "k < length rest - 1" by simp
    from Cons.IH[OF this sub(2)] sub(1) rest Suc show ?thesis
      by (simp add: stringPrefixes_Cons)
  qed
qed

lemma stringConflict_iff:
  "stringConflict localization ps =
     (\<exists>j < length ps - 1. isStr (entryAt localization (take (j + 1) ps)))"
proof
  assume "stringConflict localization ps"
  then obtain j where "j \<in> set (stringPrefixes localization ps)"
    by (cases "stringPrefixes localization ps") (auto simp: stringConflict_def)
  then show "\<exists>j < length ps - 1. isStr (entryAt localization (take (j + 1) ps))"
    by (auto simp: stringPrefixes_def)
next
  assume "\<exists>j < length ps - 1. isStr (entryAt localization (take (j + 1) ps))"
  then obtain j where "j < length ps - 1" "isStr (entryAt localization (take (j + 1) ps))"
    by auto
  from stringPrefixes_unique[OF this] show "stringConflict localization ps"
    by (simp add: stringConflict_def)
qed

lemma insert_key_string_conflict:
  assumes "j < length (splitKey key) - 1"
    and "isStr (entryAt localization (take (j + 1) (splitKey key)))"
  shows "insert_key localization key val =
     Some (Some (stringMessage (take (j + 1) (splitKey key))), localization)"
proof -
  from assms have sp: "stringPrefixes localization (splitKey key) = [j]"
    by (rule stringPrefixes_unique)
  have "0 + length (splitKey key) = length (splitKey key)" by simp
  from insertLoop_string_conflict[OF this, of localization key val] sp
  show ?thesis by (simp add: insert_key_def)
qed

lemma insert_key_catalog_conflict:
  assumes "catalogConflict localization (splitKey key)"
  shows "insert_key localization key val = Some (Some (catalogMessage key), localization)"
proof -
  have "0 + length (splitKey key) = length (splitKey key)" by simp
  from insertLoop_catalog_conflict[OF this splitKey_nonempty] assms
  show ?thesis by (simp add: insert_key_def catalogConflict_def)
qed

lemma insert_key_plain_success:
  assumes "plainKey key"
    and "\<not> stringConflict localization (splitKey key)"
    and "\<not> catalogConflict localization (splitKey key)"
  shows "\<exists>localization'. insert_key localization key val = Some (None, localization')
     \<and> entryAt localization' (splitKey key) = Some (Str val)"
proof -
  have "0 + length (splitKey key) = length (splitKey key)" by simp
  from insertLoop_plain_success[OF this splitKey_nonempty] assms
  show ?thesis by (simp add: insert_key_def catalogConflict_def stringConflict_def plainKey_def)
qed

lemma insert_key_plain_cases:
  assumes "plainKey key"
  shows "(stringConflict localization (splitKey key) \<or> catalogConflict localization (splitKey key))
       \<and> (\<exists>message. insert_key localization key val = Some (Some message, localization))
     \<or> \<not> stringConflict localization (splitKey key)
       \<and> \<not> catalogConflict localization (splitKey key)
       \<and> (\<exists>localization'. insert_key localization key val = Some (None, localization')
            \<and> entryAt localization' (splitKey key) = Some (Str val))"
proof (cases "stringConflict localization (splitKey key)")
  case True
  then obtain j where "j < length (splitKey key) - 1"
      "isStr (entryAt localization (take (j + 1) (splitKey key)))"
    by (auto simp: stringConflict_iff)
  from insert_key_string_conflict[OF this] True show ?thesis by simp
next
  case False
  show ?thesis
  proof (cases "catalogConflict localization (splitKey key)")
    case True
    from insert_key_catalog_conflict[OF this] True show ?thesis by simp
  next
    case noconflict: False
    from insert_key_plain_success[OF assms False noconflict] False noconflict
    show ?thesis by simp
  qed
qed


lemma splitKey_a: "splitKey ''a'' = [''a'']"
  by simp

lemma splitKey_a_b: "splitKey ''a/b'' = [''a'', ''b'']"
  by simp

text \<open>
  The conflicts of a key with the own properties of a catalog. For every catalog and
  key: when the part of the key up to some segment before the last one leads to a
  string, \<^verbatim>\<open>insert\<close> fails with the error that names the key up to that segment; when
  the whole key leads to a nested catalog, it fails with the error that names the
  whole key; in both cases the catalog is as it was before the call. Inserting \<^verbatim>\<open>a\<close>
  and then \<^verbatim>\<open>a/b\<close>, or the reverse, fails at the second call and keeps the catalog of
  the first.
\<close>

lemma insert_key_own_conflicts:
  "(j < length (splitKey key) - 1
      \<and> isStr (entryAt localization (take (j + 1) (splitKey key))) \<longrightarrow>
    insert_key localization key val =
      Some (Some (stringMessage (take (j + 1) (splitKey key))), localization))
   \<and> (isObj (entryAt localization (splitKey key)) \<longrightarrow>
    insert_key localization key val = Some (Some (catalogMessage key), localization))
   \<and> insert_key [] ''a'' v = Some (None, [(''a'', Str v)])
   \<and> insert_key [(''a'', Str v)] ''a/b'' w = Some (Some (stringMessage [''a'']), [(''a'', Str v)])
   \<and> insert_key [] ''a/b'' v = Some (None, [(''a'', Obj [(''b'', Str v)])])
   \<and> insert_key [(''a'', Obj [(''b'', Str v)])] ''a'' w
       = Some (Some (catalogMessage ''a''), [(''a'', Obj [(''b'', Str v)])])"
proof -
  have first: "insert_key [] ''a'' v = Some (None, [(''a'', Str v)])"
    by (simp add: insert_key_def getProperty_def objectPrototypeFunctions_def)
  have second: "insert_key [] ''a/b'' v = Some (None, [(''a'', Obj [(''b'', Str v)])])"
    by (simp add: insert_key_def getProperty_def objectPrototypeFunctions_def)
  have "insert_key [(''a'', Str v)] ''a/b'' w = Some (Some (stringMessage [''a'']), [(''a'', Str v)])"
    by (simp add: insert_key_def getProperty_def)
  moreover have "insert_key [(''a'', Obj [(''b'', Str v)])] ''a'' w
      = Some (Some (catalogMessage ''a''), [(''a'', Obj [(''b'', Str v)])])"
    by (simp add: insert_key_def getProperty_def)
  ultimately show ?thesis
    using insert_key_string_conflict[of j key localization val]
      insert_key_catalog_conflict[of localization key val]
    by (simp add: first second catalogConflict_def)
qed

text \<open>
  The policy of \<^verbatim>\<open>insert\<close> on the keys none of whose segments names a member of
  \<^verbatim>\<open>Object.prototype\<close>: it fails exactly in the two conflict cases, and then leaves the
  catalog as it was; a key whose last segment holds a string is inserted without
  error and then leads to the new value; after any successful insertion the key
  leads to the inserted value, and inserting the same key again succeeds and leaves
  the later value.
\<close>

lemma insert_key_plain_policy:
  assumes "plainKey key"
  shows "((\<exists>message localization'. insert_key localization key val = Some (Some message, localization'))
        \<longleftrightarrow> (\<exists>j < length (splitKey key) - 1.
                isStr (entryAt localization (take (j + 1) (splitKey key))))
            \<or> isObj (entryAt localization (splitKey key)))
   \<and> (\<forall>message localization'.
         insert_key localization key val = Some (Some message, localization') \<longrightarrow>
         localization' = localization)
   \<and> (isStr (entryAt localization (splitKey key)) \<longrightarrow>
        (\<exists>localization'. insert_key localization key val = Some (None, localization')
           \<and> entryAt localization' (splitKey key) = Some (Str val)))
   \<and> (\<forall>localization'.
         insert_key localization key val = Some (None, localization') \<longrightarrow>
         entryAt localization' (splitKey key) = Some (Str val)
         \<and> (\<exists>localization''. insert_key localization' key val' = Some (None, localization'')
              \<and> entryAt localization'' (splitKey key) = Some (Str val')))"
proof -
  note cases = insert_key_plain_cases[OF assms]
  have overwrites: "\<exists>l'. insert_key l key v = Some (None, l')
           \<and> entryAt l' (splitKey key) = Some (Str v)"
    if "isStr (entryAt l (splitKey key))" for l v
  proof -
    from that have "entryAt l (splitKey key) \<noteq> None"
      by (auto simp: isStr_iff)
    then have "\<not> stringConflict l (splitKey key)"
      by (simp add: stringConflict_def entryAt_no_stringPrefixes)
    moreover from that have "\<not> catalogConflict l (splitKey key)"
      by (auto simp: catalogConflict_def isStr_iff)
    ultimately show ?thesis using assms by (intro insert_key_plain_success)
  qed
  have iff: "(\<exists>message localization'. insert_key localization key val = Some (Some message, localization'))
        \<longleftrightarrow> (\<exists>j < length (splitKey key) - 1.
                isStr (entryAt localization (take (j + 1) (splitKey key))))
            \<or> isObj (entryAt localization (splitKey key))"
    using cases[of localization val]
    by (auto simp: stringConflict_iff catalogConflict_def)
  have unchanged: "localization' = localization"
    if "insert_key localization key val = Some (Some message, localization')"
    for message localization'
    using cases[of localization val] that by auto
  have ok: "entryAt localization' (splitKey key) = Some (Str val)"
    if "insert_key localization key val = Some (None, localization')" for localization'
    using cases[of localization val] that by auto
  have again: "\<exists>localization''. insert_key localization' key val' = Some (None, localization'')
              \<and> entryAt localization'' (splitKey key) = Some (Str val')"
    if "insert_key localization key val = Some (None, localization')" for localization'
    using ok[OF that] by (intro overwrites) simp
  from iff unchanged ok again overwrites[of localization val] show ?thesis
    by blast
qed

text \<open>
  C2. The call \<^verbatim>\<open>insert({}, 'x/__proto__', 'v')\<close> fails, and the failing call has
  changed the catalog: it has created the intermediate node \<^verbatim>\<open>x\<close> before the read of
  \<^verbatim>\<open>__proto__\<close> in the new, empty node found the inherited \<^verbatim>\<open>Object.prototype\<close> and
  took it for a nested catalog. The catalog \<^verbatim>\<open>{}\<close> holds no string and no nested
  catalog on the path of this key.
\<close>

theorem insert_key_inherited_conflict_mutates:
  "insert_key [] ''x/__proto__'' ''v''
     = Some (Some (catalogMessage ''x/__proto__''), [(''x'', Obj [])])
   \<and> splitKey ''x/__proto__'' = [''x'', ''__proto__'']
   \<and> stringConflict [] (splitKey ''x/__proto__'') = False
   \<and> catalogConflict [] (splitKey ''x/__proto__'') = False"
proof -
  have sk: "splitKey ''x/__proto__'' = [''x'', ''__proto__'']"
    by simp
  have "insert_key [] ''x/__proto__'' ''v''
     = Some (Some (catalogMessage ''x/__proto__''), [(''x'', Obj [])])"
    unfolding insert_key_def sk
    by (simp add: getProperty_def objectPrototypeFunctions_def)
  then show ?thesis
    by (simp add: sk stringConflict_def stringPrefixes_empty catalogConflict_def)
qed

text \<open>
  C10. The call \<^verbatim>\<open>insert({}, '__proto__', 'v')\<close> raises the error of a nested catalog
  at the last segment, although the catalog \<^verbatim>\<open>{}\<close> holds neither a string at a
  segment before the last one nor a nested catalog at the last one: neither of the
  two conflict cases holds, and the key is not inserted.
\<close>

theorem insert_key_inherited_conflict_raises:
  "insert_key [] ''__proto__'' ''v'' = Some (Some (catalogMessage ''__proto__''), [])
   \<and> splitKey ''__proto__'' = [''__proto__'']
   \<and> stringPrefixes [] (splitKey ''__proto__'') = []
   \<and> entryAt [] (splitKey ''__proto__'') = None"
proof -
  have sk: "splitKey ''__proto__'' = [''__proto__'']"
    by simp
  have "insert_key [] ''__proto__'' ''v'' = Some (Some (catalogMessage ''__proto__''), [])"
    unfolding insert_key_def sk
    by (simp add: getProperty_def)
  then show ?thesis
    by (simp add: sk stringPrefixes_empty)
qed

text \<open>
  The calls whose key has a member of \<^verbatim>\<open>Object.prototype\<close> as a segment before the last
  one leave the catalogs: their result is not described here.
\<close>

lemma insert_key_leaves_catalog:
  "insert_key [] ''__proto__/a'' ''v'' = None
   \<and> insert_key [] ''constructor/name/x'' ''v'' = None
   \<and> insert_key [] ''toString'' ''v'' = Some (None, [(''toString'', Str ''v'')])"
proof -
  have "splitKey ''__proto__/a'' = [''__proto__'', ''a'']"
    by simp
  moreover have "splitKey ''constructor/name/x'' = [''constructor'', ''name'', ''x'']"
    by simp
  moreover have "splitKey ''toString'' = [''toString'']"
    by simp
  ultimately show ?thesis
    by (simp add: insert_key_def getProperty_def objectPrototypeFunctions_def)
qed

section \<open>The collector: properties\<close>

lemma fold_append_concat:
  "(\<And>c acc. c \<in> set cs \<Longrightarrow> f c acc = acc @ g c) \<Longrightarrow>
   fold f cs acc = acc @ concat (map g cs)"
  by (induction cs arbitrary: acc) simp_all

lemma loop_append: "loop fn n result = result @ loop fn n []"
proof (induction fn n result rule: loop.induct)
  case (1 fn n result)
  show ?case
  proof (cases "fn n")
    case True
    then show ?thesis by (simp add: loop.simps[of fn n])
  next
    case False
    have step: "loop fn c acc = acc @ loop fn c []" if "c \<in> set (forEachChild n)" for c acc
      using 1[OF False that] .
    have "fold (loop fn) (forEachChild n) acc
        = acc @ concat (map (\<lambda>c. loop fn c []) (forEachChild n))" for acc
      by (rule fold_append_concat) (rule step)
    from this[of result] this[of "[]"] False show ?thesis
      by (simp add: loop.simps[of fn n])
  qed
qed

lemma collect_unfold:
  "collect n fn =
     (if fn n then [n] else concat (map (\<lambda>c. collect c fn) (forEachChild n)))"
proof (cases "fn n")
  case True
  then show ?thesis by (simp add: collect_def loop.simps[of fn n])
next
  case False
  have "fold (loop fn) (forEachChild n) []
      = [] @ concat (map (\<lambda>c. loop fn c []) (forEachChild n))"
    by (rule fold_append_concat) (rule loop_append)
  with False show ?thesis
    by (simp add: collect_def loop.simps[of fn n "[]"])
qed

lemma collect_matches: "m \<in> set (collect n fn) \<Longrightarrow> fn m"
proof (induction n rule: preorder.induct)
  case (1 n)
  then show ?case
    by (subst (asm) (2) collect_unfold) (auto split: if_splits)
qed

lemma subseq_concat_map:
  "(\<And>c. c \<in> set cs \<Longrightarrow> subseq (f c) (g c)) \<Longrightarrow>
   subseq (concat (map f cs)) (concat (map g cs))"
  by (induction cs) (auto intro: list_emb_append_mono)

lemma collect_subseq_preorder: "subseq (collect n fn) (preorder n)"
proof (induction n rule: preorder.induct)
  case (1 n)
  have "subseq (concat (map (\<lambda>c. collect c fn) (forEachChild n)))
          (concat (map preorder (forEachChild n)))"
    by (rule subseq_concat_map) (rule 1)
  then show ?case
    by (subst collect_unfold, subst preorder.simps) auto
qed


lemma fold_pair_append:
  "(\<And>x acc vis. x \<in> set xs \<Longrightarrow> f x (acc, vis) = (acc @ g x, vis @ h x)) \<Longrightarrow>
   fold f xs (acc, vis) = (acc @ concat (map g xs), vis @ concat (map h xs))"
  by (induction xs arbitrary: acc vis) simp_all

lemma concat_map_zip_snd:
  "concat (map (\<lambda>(k, c). g c) (zip [0 ..< length cs] cs)) = concat (map g cs)"
proof -
  have z: "map snd (zip [0 ..< length cs] cs) = cs"
    by (rule map_snd_zip) simp
  have "map (\<lambda>(k, c). g c) (zip [0 ..< length cs] cs)
      = map (g \<circ> snd) (zip [0 ..< length cs] cs)"
    by (rule map_cong) auto
  also have "\<dots> = map g (map snd (zip [0 ..< length cs] cs))"
    by (simp only: map_map)
  finally show ?thesis by (simp only: z)
qed

lemma in_indexed:
  "(k, c) \<in> set (zip [0 ..< length cs] cs) \<longleftrightarrow> k < length cs \<and> c = cs ! k"
proof
  assume "(k, c) \<in> set (zip [0 ..< length cs] cs)"
  then show "k < length cs \<and> c = cs ! k"
    by (auto simp: set_zip)
next
  assume a: "k < length cs \<and> c = cs ! k"
  then have "zip [0 ..< length cs] cs ! k = (k, c)" by simp
  moreover from a have "k < length (zip [0 ..< length cs] cs)" by simp
  ultimately show "(k, c) \<in> set (zip [0 ..< length cs] cs)"
    by (metis nth_mem)
qed

lemma append_single: "(@) [k] = (#) k"
  by auto

lemma append_snoc: "(@) (pos @ [k]) = (\<lambda>xs. pos @ k # xs)"
  by auto

lemma loopVisits_eq:
  "loopVisits fn pos n (result, visited) =
     (result @ collect n fn, visited @ map ((@) pos) (visits n fn))"
proof (induction n arbitrary: pos result visited rule: preorder.induct)
  case (1 n)
  show ?case
  proof (cases "fn n")
    case True
    then show ?thesis
      by (simp add: loopVisits.simps[of fn _ n] visits_def collect_unfold[of n])
  next
    case False
    let ?kcs = "zip [0 ..< length (forEachChild n)] (forEachChild n)"
    have step: "(case x of (k, c) \<Rightarrow> loopVisits fn (p @ [k]) c) (acc, vis)
        = (acc @ (case x of (k, c) \<Rightarrow> collect c fn),
           vis @ (case x of (k, c) \<Rightarrow> map ((@) (p @ [k])) (visits c fn)))"
      if "x \<in> set ?kcs" for x p acc vis
    proof -
      obtain k c where x: "x = (k, c)" by (cases x)
      with that have "c \<in> set (forEachChild n)" by (auto dest: set_zip_rightD)
      from 1[OF this] x show ?thesis by simp
    qed
    have folded: "fold (\<lambda>(k, c). loopVisits fn (p @ [k]) c) ?kcs (acc, vis)
        = (acc @ concat (map (\<lambda>(k, c). collect c fn) ?kcs),
           vis @ concat (map (\<lambda>(k, c). map ((@) (p @ [k])) (visits c fn)) ?kcs))"
      for p acc vis
      by (rule fold_pair_append) (rule step)
    have v: "visits n fn
        = [] # concat (map (\<lambda>(k, c). map ((@) [k]) (visits c fn)) ?kcs)"
      using False folded[of "[]" "[]" "[[]]"]
      by (simp add: visits_def loopVisits.simps[of fn "[]" n])
    have "map ((@) pos) (visits n fn)
        = pos # concat (map (\<lambda>(k, c). map ((@) (pos @ [k])) (visits c fn)) ?kcs)"
      by (simp add: v map_concat comp_def case_prod_unfold append_snoc append_single)
    with False folded[of pos result "visited @ [pos]"] show ?thesis
      by (simp add: loopVisits.simps[of fn pos n] collect_unfold[of n] concat_map_zip_snd)
  qed
qed

lemma visits_unfold:
  "visits n fn =
     [] # (if fn n then []
           else concat (map (\<lambda>(k, c). map ((#) k) (visits c fn))
                          (zip [0 ..< length (forEachChild n)] (forEachChild n))))"
proof (cases "fn n")
  case True
  then show ?thesis by (simp add: visits_def loopVisits.simps[of fn _ n])
next
  case False
  have "fold (\<lambda>(k, c). loopVisits fn ([] @ [k]) c)
          (zip [0 ..< length (forEachChild n)] (forEachChild n)) ([], [[]])
      = ([] @ concat (map (\<lambda>(k, c). collect c fn)
                        (zip [0 ..< length (forEachChild n)] (forEachChild n))),
         [[]] @ concat (map (\<lambda>(k, c). map ((@) [k]) (visits c fn))
                        (zip [0 ..< length (forEachChild n)] (forEachChild n))))"
    by (rule fold_pair_append) (auto simp: loopVisits_eq)
  with False show ?thesis
    by (simp add: visits_def loopVisits.simps[of fn "[]" n] append_single)
qed

lemma visits_reachable: "pos \<in> set (visits n fn) \<longleftrightarrow> reachable fn n pos"
proof (induction pos arbitrary: n)
  case Nil
  show ?case by (subst visits_unfold) simp
next
  case (Cons k pos)
  have "k # pos \<in> set (visits n fn) \<longleftrightarrow>
      \<not> fn n \<and> (\<exists>(k', c) \<in> set (zip [0 ..< length (forEachChild n)] (forEachChild n)).
                  k' = k \<and> pos \<in> set (visits c fn))"
    by (subst visits_unfold) auto
  also have "\<dots> \<longleftrightarrow> \<not> fn n \<and> k < length (forEachChild n)
      \<and> pos \<in> set (visits (forEachChild n ! k) fn)"
    by (auto simp: in_indexed)
  finally show ?case using Cons.IH by simp
qed

lemma distinct_concat_tagged:
  "distinct (map fst kcs) \<Longrightarrow> (\<And>k c. (k, c) \<in> set kcs \<Longrightarrow> distinct (V c)) \<Longrightarrow>
   distinct (concat (map (\<lambda>(k, c). map ((#) k) (V c)) kcs))"
proof (induction kcs)
  case Nil
  then show ?case by simp
next
  case (Cons kc kcs)
  obtain k c where kc: "kc = (k, c)" by (cases kc)
  from Cons.prems(1) kc have notin: "k \<notin> fst ` set kcs" by simp
  have "distinct (map ((#) k) (V c))"
    using Cons.prems(2)[of k c] kc by (simp add: distinct_map)
  moreover have "distinct (concat (map (\<lambda>(k, c). map ((#) k) (V c)) kcs))"
    using Cons.prems by (intro Cons.IH) auto
  moreover have "set (map ((#) k) (V c))
      \<inter> set (concat (map (\<lambda>(k, c). map ((#) k) (V c)) kcs)) = {}"
    using notin by force
  ultimately show ?case using kc by simp
qed

lemma visits_distinct: "distinct (visits n fn)"
proof (induction n rule: preorder.induct)
  case (1 n)
  have "distinct (concat (map (\<lambda>(k, c). map ((#) k) (visits c fn))
          (zip [0 ..< length (forEachChild n)] (forEachChild n))))"
  proof (rule distinct_concat_tagged)
    show "distinct (map fst (zip [0 ..< length (forEachChild n)] (forEachChild n)))"
      by simp
  next
    fix k c
    assume "(k, c) \<in> set (zip [0 ..< length (forEachChild n)] (forEachChild n))"
    then have "c \<in> set (forEachChild n)" by (rule set_zip_rightD)
    then show "distinct (visits c fn)" by (rule 1)
  qed
  then show ?case
    by (subst visits_unfold) auto
qed

lemma collect_visits:
  "collect n fn =
     map (\<lambda>pos. the (nodeAt n pos)) (filter (\<lambda>pos. fn (the (nodeAt n pos))) (visits n fn))"
proof (induction n rule: preorder.induct)
  case (1 n)
  show ?case
  proof (cases "fn n")
    case True
    then show ?thesis
      by (subst collect_unfold, subst visits_unfold, subst visits_unfold) simp
  next
    case False
    let ?cs = "forEachChild n"
    let ?kcs = "zip [0 ..< length ?cs] ?cs"
    have each: "map (\<lambda>pos. the (nodeAt n pos))
          (filter (\<lambda>pos. fn (the (nodeAt n pos))) (map ((#) k) (visits c fn)))
        = collect c fn" if "(k, c) \<in> set ?kcs" for k c
    proof -
      from that have k: "k < length ?cs" "c = ?cs ! k"
        by (simp_all add: in_indexed)
      then have "c \<in> set ?cs" by simp
      from 1[OF this] k show ?thesis
        by (simp add: filter_map comp_def)
    qed
    have "map (\<lambda>pos. the (nodeAt n pos))
          (filter (\<lambda>pos. fn (the (nodeAt n pos)))
             (concat (map (\<lambda>(k, c). map ((#) k) (visits c fn)) ?kcs)))
        = concat (map (\<lambda>(k, c). map (\<lambda>pos. the (nodeAt n pos))
             (filter (\<lambda>pos. fn (the (nodeAt n pos))) (map ((#) k) (visits c fn)))) ?kcs)"
      by (simp add: filter_concat map_concat comp_def case_prod_unfold)
    also have "\<dots> = concat (map (\<lambda>(k, c). collect c fn) ?kcs)"
      using each by (intro arg_cong[where f = concat] map_cong) auto
    also have "\<dots> = concat (map (\<lambda>c. collect c fn) ?cs)"
      by (rule concat_map_zip_snd)
    finally have body: "map (\<lambda>pos. the (nodeAt n pos))
          (filter (\<lambda>pos. fn (the (nodeAt n pos)))
             (concat (map (\<lambda>(k, c). map ((#) k) (visits c fn)) ?kcs)))
        = concat (map (\<lambda>c. collect c fn) ?cs)" .
    have v: "visits n fn = [] # concat (map (\<lambda>(k, c). map ((#) k) (visits c fn)) ?kcs)"
      using False by (subst visits_unfold) simp
    have c: "collect n fn = concat (map (\<lambda>c. collect c fn) ?cs)"
      using False by (subst collect_unfold) simp
    from False body show ?thesis
      by (simp only: v c) simp
  qed
qed

text \<open>
  C7. For every tree and predicate, \<^verbatim>\<open>collect\<close> returns the node itself when the
  predicate matches it, without looking into its subtree, and otherwise the matches
  of its children one after the other, in the order of the children; the result is a
  subsequence of the depth-first listing of the tree. The walk calls \<open>loop\<close> exactly
  once at every position that has no matching node strictly above it and at no other
  position, and the result is the list of the matching nodes among the visited ones,
  in the order of the visits. \<^verbatim>\<open>collect\<close> is a function of the tree and the predicate.
\<close>

theorem collect_traversal:
  "collect n fn = (if fn n then [n] else concat (map (\<lambda>c. collect c fn) (forEachChild n)))
   \<and> subseq (collect n fn) (preorder n)
   \<and> loopVisits fn [] n ([], []) = (collect n fn, visits n fn)
   \<and> collect n fn
       = map (\<lambda>pos. the (nodeAt n pos))
           (filter (\<lambda>pos. fn (the (nodeAt n pos))) (visits n fn))
   \<and> distinct (visits n fn)
   \<and> set (visits n fn) = {pos. reachable fn n pos}"
proof -
  have "map ((@) []) (visits n fn) = visits n fn"
    by (rule map_idI) simp
  then have "loopVisits fn [] n ([], []) = (collect n fn, visits n fn)"
    by (simp add: loopVisits_eq)
  moreover have "set (visits n fn) = {pos. reachable fn n pos}"
    by (auto simp: visits_reachable)
  moreover note collect_unfold[of n fn] collect_subseq_preorder[of n fn]
    collect_visits[of n fn] visits_distinct[of n fn]
  ultimately show ?thesis by blast
qed

lemmas tree_defs =
  sourceFileOf_def statement_def oneArgumentCall_def twoArgumentCall_def innerCall_def
  localizeCallee_def commandCallee_def commandCallAt_def objectLiteral_def assignmentAt_def
  literal_def ident_def getText_def at_def

text \<open>
  The walk over a file with a call inside a call: the outer call is collected, the
  inner one is never visited.
\<close>

lemma collect_nestedFile:
  "collect nestedFile isLocalizeCall = [nestedCall, oneArgumentCall 0 45 1 ''k2'']"
  by (simp add: collect_unfold nestedFile_def nestedCall_def tree_defs)

lemma visits_nestedFile: "visits nestedFile isLocalizeCall = [[], [0], [0, 0], [1], [1, 0]]"
  by (simp add: visits_unfold nestedFile_def nestedCall_def tree_defs)

theorem collect_traversal_witness:
  "collect nestedFile isLocalizeCall = [nestedCall, oneArgumentCall 0 45 1 ''k2'']
   \<and> visits nestedFile isLocalizeCall = [[], [0], [0, 0], [1], [1, 0]]
   \<and> loopVisits isLocalizeCall [] nestedFile ([], [])
       = ([nestedCall, oneArgumentCall 0 45 1 ''k2''], [[], [0], [0, 0], [1], [1, 0]])"
  using collect_traversal [of nestedFile isLocalizeCall]
  by (simp add: collect_nestedFile visits_nestedFile)

section \<open>The call-site extractors: properties\<close>

lemma extractString_literal: "extractString (StringLiteral i t) = Inr (unescapeString t)"
  by simp

lemma extractString_other:
  "\<not> isStringLiteral n \<Longrightarrow>
   extractString n = Inl (buildErrorMessage (quoted (getText n) @ '' is not a string constant'') n)"
  by (cases n) simp_all

lemma isStringLiteral_iff: "isStringLiteral n \<longleftrightarrow> (\<exists>i t. n = StringLiteral i t)"
  by (cases n) simp_all

text \<open>
  C1 (as amended). For a call \<^verbatim>\<open>nls.localize(k, v)\<close> whose first two arguments are
  string literals with the texts \<open>k\<close> and \<open>v\<close>, the extracted pair is the unescaped
  \<open>k\<close> with the unescaped \<open>v\<close>; it is \<open>k\<close> itself with the unescaped \<open>v\<close> when \<open>k\<close>
  holds no recognised escape. With fewer than two arguments the extraction fails with
  the message that two arguments are needed, at the position of the call; when the
  first argument, or else the second, is not a string literal, it fails with the
  message that this argument's text is not a string constant, at the position of
  that argument. Every message starts with file, line and column. A failed extraction
  appends its message to the error sink and leaves the catalog as it was.
\<close>

theorem extractFromLocalizeCall_result:
  "(2 \<le> length args \<and> args ! 0 = StringLiteral i0 k \<and> args ! 1 = StringLiteral i1 v \<longrightarrow>
      extractFromLocalizeCall (CallExpression i e args)
        = Inr (unescapeString k, unescapeString v))
   \<and> (2 \<le> length args \<and> args ! 0 = StringLiteral i0 k \<and> args ! 1 = StringLiteral i1 v
        \<and> \<not> hasEscape k \<longrightarrow>
      extractFromLocalizeCall (CallExpression i e args) = Inr (k, unescapeString v))
   \<and> (length args < 2 \<longrightarrow>
      extractFromLocalizeCall (CallExpression i e args)
        = Inl (buildErrorMessage ''Localize call needs at least 2 arguments''
                 (CallExpression i e args)))
   \<and> (2 \<le> length args \<and> \<not> isStringLiteral (args ! 0) \<longrightarrow>
      extractFromLocalizeCall (CallExpression i e args)
        = Inl (buildErrorMessage
                 (quoted (getText (args ! 0)) @ '' is not a string constant'') (args ! 0)))
   \<and> (2 \<le> length args \<and> isStringLiteral (args ! 0) \<and> \<not> isStringLiteral (args ! 1) \<longrightarrow>
      extractFromLocalizeCall (CallExpression i e args)
        = Inl (buildErrorMessage
                 (quoted (getText (args ! 1)) @ '' is not a string constant'') (args ! 1)))
   \<and> (extractFromLocalizeCall call = Inl message \<longrightarrow>
      localizeCallStep options call (localization, errors)
        = Some (localization, errors @ [message]))"
  by (auto simp: extractString_other isStringLiteral_iff localizeCallStep_def
      unescapeString_scan unescapeScan_fixed)

text \<open>
  The well-formed and the one-argument call of the sample file, and the calls
  \<^verbatim>\<open>nls.localize(key, 'v')\<close> and \<^verbatim>\<open>nls.localize('k', val)\<close> at the start of a file.
\<close>

theorem extractFromLocalizeCall_result_witness:
  "extractFromLocalizeCall goodCall = Inr (''k'', ''v'')
   \<and> extractFromLocalizeCall badCall
       = Inl ''a.ts(1,23): Localize call needs at least 2 arguments''
   \<and> extractFromLocalizeCall
         (CallExpression (at 0 0 (''nls.localize(key, '' @ quoted ''v'' @ '')''))
            (localizeCallee 0 0 0 4) [ident 0 13 ''key'', literal 0 17 ''v''])
       = Inl (''a.ts(1,14): '' @ quoted ''key'' @ '' is not a string constant'')
   \<and> extractFromLocalizeCall
         (CallExpression (at 0 0 (''nls.localize('' @ quoted ''k'' @ '', val)''))
            (localizeCallee 0 0 0 4) [literal 0 13 ''k'', ident 0 17 ''val''])
       = Inl (''a.ts(1,18): '' @ quoted ''val'' @ '' is not a string constant'')
   \<and> localizeCallStep plainOptions badCall ([(''k'', Str ''v'')], [])
       = Some ([(''k'', Str ''v'')], [''a.ts(1,23): Localize call needs at least 2 arguments''])"
proof -
  have u: "unescapeString ''k'' = ''k''" "unescapeString ''v'' = ''v''"
    by (simp_all add: unescapeString_scan backslash_def)
  have good: "extractFromLocalizeCall goodCall = Inr (''k'', ''v'')"
    using extractFromLocalizeCall_result
      [of "[literal 0 13 ''k'', literal 0 17 ''v'']" "at 0 13 (quoted ''k'')" "''k''"
          "at 0 17 (quoted ''v'')" "''v''"
          "at 0 0 (''nls.localize('' @ quoted ''k'' @ '', '' @ quoted ''v'' @ '')'')"
          "localizeCallee 0 0 0 4"]
    by (simp add: goodCall_def twoArgumentCall_def literal_def u)
  have bad: "extractFromLocalizeCall badCall
       = Inl ''a.ts(1,23): Localize call needs at least 2 arguments''"
    using extractFromLocalizeCall_result
      [of "[literal 1 13 ''k2'']" _ _ _ _ "at 0 22 (''nls.localize('' @ quoted ''k2'' @ '')'')"
          "localizeCallee 0 22 1 4"]
    by (simp add: badCall_def oneArgumentCall_def buildErrorMessage_def at_def digits_def)
  have first: "extractFromLocalizeCall
         (CallExpression (at 0 0 (''nls.localize(key, '' @ quoted ''v'' @ '')''))
            (localizeCallee 0 0 0 4) [ident 0 13 ''key'', literal 0 17 ''v''])
       = Inl (''a.ts(1,14): '' @ quoted ''key'' @ '' is not a string constant'')"
    using extractFromLocalizeCall_result
      [of "[ident 0 13 ''key'', literal 0 17 ''v'']" _ _ _ _
          "at 0 0 (''nls.localize(key, '' @ quoted ''v'' @ '')'')" "localizeCallee 0 0 0 4"]
    by (simp add: ident_def buildErrorMessage_def at_def digits_def getText_def)
  have second: "extractFromLocalizeCall
         (CallExpression (at 0 0 (''nls.localize('' @ quoted ''k'' @ '', val)''))
            (localizeCallee 0 0 0 4) [literal 0 13 ''k'', ident 0 17 ''val''])
       = Inl (''a.ts(1,18): '' @ quoted ''val'' @ '' is not a string constant'')"
    using extractFromLocalizeCall_result
      [of "[literal 0 13 ''k'', ident 0 17 ''val'']" _ _ _ _
          "at 0 0 (''nls.localize('' @ quoted ''k'' @ '', val)'')" "localizeCallee 0 0 0 4"]
    by (simp add: ident_def literal_def buildErrorMessage_def at_def digits_def getText_def)
  from bad have "localizeCallStep plainOptions badCall ([(''k'', Str ''v'')], [])
       = Some ([(''k'', Str ''v'')], [''a.ts(1,23): Localize call needs at least 2 arguments''])"
    using extractFromLocalizeCall_result
      [where call = badCall and options = plainOptions and localization = "[(''k'', Str ''v'')]"
         and errors = "[]"]
    by simp
  with good bad first second show ?thesis by (intro conjI)
qed

text \<open>
  The key is unescaped as well: a key literal with the text a, backslash, n is
  extracted as a, line feed, not as the text itself.
\<close>

theorem extractFromLocalizeCall_key_counterexample:
  "extractFromLocalizeCall
     (CallExpression
        (at 0 0 (''nls.localize('' @ quoted [CHR ''a'', backslash, CHR ''n''] @ '', ''
                  @ quoted ''v'' @ '')''))
        (localizeCallee 0 0 0 4)
        [literal 0 13 [CHR ''a'', backslash, CHR ''n''], literal 0 19 ''v''])
   = Inr ([CHR ''a'', CHR 0x0A], ''v'')
   \<and> [CHR ''a'', CHR 0x0A] \<noteq> [CHR ''a'', backslash, CHR ''n'']"
  by (simp add: literal_def unescapeString_scan backslash_def unescapeMap_def)

lemma extractString_Inr:
  "extractString n = Inr s \<longleftrightarrow> (\<exists>i t. n = StringLiteral i t \<and> s = unescapeString t)"
  by (cases n) auto

lemma truthy_iff: "truthy x \<longleftrightarrow> (\<exists>s. x = Some s \<and> s \<noteq> [])"
  by (cases x) simp_all

lemma command_inversion:
  assumes "extractFromLocalizedCommandCall (CallExpression i e args) = Inr r"
  shows "\<exists>j properties pm labelKey categoryKey.
     args \<noteq> [] \<and> args ! 0 = ObjectLiteralExpression j properties
     \<and> propertyLoop properties Map.empty = Inr pm
     \<and> (if 1 < length args
         then \<exists>i1 t. args ! 1 = StringLiteral i1 t
                \<and> labelKey = (if unescapeString t \<noteq> [] then Some (unescapeString t)
                               else pm ''id'')
         else labelKey = pm ''id'')
     \<and> (if 2 < length args
         then \<exists>i2 t. args ! 2 = StringLiteral i2 t \<and> categoryKey = Some (unescapeString t)
         else categoryKey = None)
     \<and> truthy labelKey \<and> truthy (pm ''label'')
     \<and> r = \<lparr>label = (the labelKey, the (pm ''label'')),
              category = (if truthy categoryKey \<and> truthy (pm ''category'')
                          then Some (the categoryKey, the (pm ''category'')) else None)\<rparr>"
proof -
  from assms have nonempty: "args \<noteq> []"
    by (auto simp: Let_def split: if_splits)
  from assms nonempty obtain j properties where obj: "args ! 0 = ObjectLiteralExpression j properties"
    by (cases "args ! 0") (auto simp: Let_def split: if_splits)
  from assms nonempty obj obtain pm where pm: "propertyLoop properties Map.empty = Inr pm"
    by (cases "propertyLoop properties Map.empty") (auto simp: Let_def)
  define lk where "lk = (if length args > 1
                            then (case extractString (args ! 1) of
                                    Inl err \<Rightarrow> Inl err
                                  | Inr s \<Rightarrow> Inr (if s \<noteq> [] then Some s
                                                   else pm ''id''))
                            else Inr (pm ''id''))"
  define ck where "ck = (if length args > 2
                                 then (case extractString (args ! 2) of
                                         Inl err \<Rightarrow> Inl err
                                       | Inr s \<Rightarrow> Inr (Some s))
                                 else Inr None)"
  have eq: "extractFromLocalizedCommandCall (CallExpression i e args) =
      (case lk of
         Inl err \<Rightarrow> Inl err
       | Inr labelKey \<Rightarrow>
           (case ck of
              Inl err \<Rightarrow> Inl err
            | Inr categoryKey \<Rightarrow>
                (if \<not> truthy labelKey
                 then Inl (buildErrorMessage ''No label key found'' (CallExpression i e args))
                 else if \<not> truthy (pm ''label'')
                 then Inl (buildErrorMessage ''No default label found''
                        (CallExpression i e args))
                 else Inr \<lparr>label = (the labelKey, the (pm ''label'')),
                           category = (if truthy categoryKey \<and> truthy (pm ''category'')
                                       then Some (the categoryKey, the (pm ''category''))
                                       else None)\<rparr>)))"
    using nonempty obj pm unfolding lk_def ck_def by (simp add: Let_def)
  from assms obtain labelKey where labelKey: "lk = Inr labelKey"
    unfolding eq by (cases lk) auto
  from assms labelKey obtain categoryKey where categoryKey: "ck = Inr categoryKey"
    unfolding eq by (cases ck) auto
  from assms labelKey categoryKey
  have rest: "truthy labelKey \<and> truthy (pm ''label'')
     \<and> r = \<lparr>label = (the labelKey, the (pm ''label'')),
              category = (if truthy categoryKey \<and> truthy (pm ''category'')
                          then Some (the categoryKey, the (pm ''category'')) else None)\<rparr>"
    unfolding eq by (auto split: if_splits)
  from labelKey have l: "(if 1 < length args
         then \<exists>i1 t. args ! 1 = StringLiteral i1 t
                \<and> labelKey = (if unescapeString t \<noteq> [] then Some (unescapeString t)
                               else pm ''id'')
         else labelKey = pm ''id'')"
    by (force simp: lk_def extractString_Inr split: if_splits sum.splits)
  from categoryKey have c: "(if 2 < length args
         then \<exists>i2 t. args ! 2 = StringLiteral i2 t \<and> categoryKey = Some (unescapeString t)
         else categoryKey = None)"
    by (force simp: ck_def extractString_Inr split: if_splits sum.splits)
  from nonempty obj pm l c rest show ?thesis by blast
qed

lemmas sample_defs =
  commandCall_def commandCallee_def assignment_def ident_def literal_def at_def
  relevantProps_def unescapeString_scan backslash_def buildErrorMessage_def digits_def
  quoted_def dquoted_def getText_def

lemma command_plain:
  "extractFromLocalizedCommandCall
     (commandCall [assignment ''id'' ''K'', assignment ''label'' ''L''] [])
   = Inr \<lparr>label = (''K'', ''L''), category = None\<rparr>"
  by (simp add: sample_defs)

lemma command_explicit:
  "extractFromLocalizedCommandCall
     (commandCall
        [assignment ''id'' ''K'', assignment ''label'' ''L'', assignment ''category'' ''C'']
        [literal 0 50 ''K2'', literal 0 56 ''C2''])
   = Inr \<lparr>label = (''K2'', ''L''), category = Some (''C2'', ''C'')\<rparr>"
  by (simp add: sample_defs)

lemma command_key_only:
  "extractFromLocalizedCommandCall
     (commandCall [assignment ''id'' ''K'', assignment ''label'' ''L'']
        [literal 0 50 ''K2'', literal 0 56 ''C2''])
   = Inr \<lparr>label = (''K2'', ''L''), category = None\<rparr>"
  by (simp add: sample_defs)

lemma command_value_only:
  "extractFromLocalizedCommandCall
     (commandCall
        [assignment ''id'' ''K'', assignment ''label'' ''L'', assignment ''category'' ''C''] [])
   = Inr \<lparr>label = (''K'', ''L''), category = None\<rparr>"
  by (simp add: sample_defs)

lemma command_category_general:
  assumes "extractFromLocalizedCommandCall (CallExpression i e args) = Inr r"
  shows "\<exists>j properties propertyMap.
          args ! 0 = ObjectLiteralExpression j properties
          \<and> propertyLoop properties Map.empty = Inr propertyMap
          \<and> fst (label r) \<noteq> [] \<and> snd (label r) \<noteq> []
          \<and> propertyMap ''label'' = Some (snd (label r))
          \<and> (\<forall>ck cv. category r = Some (ck, cv) \<longleftrightarrow>
                2 < length args
                \<and> (\<exists>i2 t. args ! 2 = StringLiteral i2 t \<and> ck = unescapeString t)
                \<and> ck \<noteq> []
                \<and> propertyMap ''category'' = Some cv \<and> cv \<noteq> [])"
  proof -
    from command_inversion[OF assms] obtain j properties pm labelKey categoryKey where
      obj: "args ! 0 = ObjectLiteralExpression j properties"
      and pm: "propertyLoop properties Map.empty = Inr pm"
      and ck: "if 2 < length args
         then \<exists>i2 t. args ! 2 = StringLiteral i2 t \<and> categoryKey = Some (unescapeString t)
         else categoryKey = None"
      and lk: "truthy labelKey" and lv: "truthy (pm ''label'')"
      and r: "r = \<lparr>label = (the labelKey, the (pm ''label'')),
              category = (if truthy categoryKey \<and> truthy (pm ''category'')
                          then Some (the categoryKey, the (pm ''category'')) else None)\<rparr>"
      by blast
    have cat: "category r = Some (ck', cv) \<longleftrightarrow>
                2 < length args
                \<and> (\<exists>i2 t. args ! 2 = StringLiteral i2 t \<and> ck' = unescapeString t)
                \<and> ck' \<noteq> []
                \<and> pm ''category'' = Some cv \<and> cv \<noteq> []" for ck' cv
      using ck by (cases "2 < length args") (auto simp: r truthy_iff)
    from lk lv have "fst (label r) \<noteq> []" "snd (label r) \<noteq> []"
        "pm ''label'' = Some (snd (label r))"
      by (auto simp: r truthy_iff)
    with obj pm cat show ?thesis by blast
  qed

text \<open>
  C4 (as amended). Every successful extraction from a localized-command call has a
  label pair, with a non-empty key and the non-empty value of the \<^verbatim>\<open>label\<close> member. Its
  category pair is the pair of a key and a value exactly when the call has a third
  argument, a string literal that unescapes to that key, the key is not empty, and
  the \<^verbatim>\<open>category\<close> member has that value, which is not empty; otherwise there is no
  category pair, and no error. The value of a \<^verbatim>\<open>category\<close> member is the unescaped
  text of its string literal. The four calls: members \<^verbatim>\<open>id\<close>, \<^verbatim>\<open>label\<close> alone; with
  \<^verbatim>\<open>category\<close> and two explicit keys; explicit keys but no \<^verbatim>\<open>category\<close> member; a
  \<^verbatim>\<open>category\<close> member but no explicit keys.
\<close>

theorem command_category_pair:
  "(extractFromLocalizedCommandCall (CallExpression i e args) = Inr r \<longrightarrow>
      (\<exists>j properties propertyMap.
          args ! 0 = ObjectLiteralExpression j properties
          \<and> propertyLoop properties Map.empty = Inr propertyMap
          \<and> fst (label r) \<noteq> [] \<and> snd (label r) \<noteq> []
          \<and> propertyMap ''label'' = Some (snd (label r))
          \<and> (\<forall>ck cv. category r = Some (ck, cv) \<longleftrightarrow>
                2 < length args
                \<and> (\<exists>i2 t. args ! 2 = StringLiteral i2 t \<and> ck = unescapeString t)
                \<and> ck \<noteq> []
                \<and> propertyMap ''category'' = Some cv \<and> cv \<noteq> [])))
   \<and> extractFromLocalizedCommandCall
         (commandCall [assignment ''id'' ''K'', assignment ''label'' ''L''] [])
       = Inr \<lparr>label = (''K'', ''L''), category = None\<rparr>
   \<and> extractFromLocalizedCommandCall
         (commandCall
            [assignment ''id'' ''K'', assignment ''label'' ''L'', assignment ''category'' ''C'']
            [literal 0 50 ''K2'', literal 0 56 ''C2''])
       = Inr \<lparr>label = (''K2'', ''L''), category = Some (''C2'', ''C'')\<rparr>
   \<and> extractFromLocalizedCommandCall
         (commandCall [assignment ''id'' ''K'', assignment ''label'' ''L'']
            [literal 0 50 ''K2'', literal 0 56 ''C2''])
       = Inr \<lparr>label = (''K2'', ''L''), category = None\<rparr>
   \<and> extractFromLocalizedCommandCall
         (commandCall
            [assignment ''id'' ''K'', assignment ''label'' ''L'', assignment ''category'' ''C'']
            [])
       = Inr \<lparr>label = (''K'', ''L''), category = None\<rparr>
   \<and> propertyLoop
         (PropertyAssignment i' (Identifier j' ''category'') (StringLiteral i'' t) # members)
         propertyMap'
       = propertyLoop members (propertyMap'(''category'' \<mapsto> unescapeString t))"
proof (intro conjI impI)
  assume "extractFromLocalizedCommandCall (CallExpression i e args) = Inr r"
  then show "\<exists>j properties propertyMap.
          args ! 0 = ObjectLiteralExpression j properties
          \<and> propertyLoop properties Map.empty = Inr propertyMap
          \<and> fst (label r) \<noteq> [] \<and> snd (label r) \<noteq> []
          \<and> propertyMap ''label'' = Some (snd (label r))
          \<and> (\<forall>ck cv. category r = Some (ck, cv) \<longleftrightarrow>
                2 < length args
                \<and> (\<exists>i2 t. args ! 2 = StringLiteral i2 t \<and> ck = unescapeString t)
                \<and> ck \<noteq> []
                \<and> propertyMap ''category'' = Some cv \<and> cv \<noteq> [])"
    by (rule command_category_general)
next
  show "propertyLoop
         (PropertyAssignment i' (Identifier j' ''category'') (StringLiteral i'' t) # members)
         propertyMap'
       = propertyLoop members (propertyMap'(''category'' \<mapsto> unescapeString t))"
    by (simp add: relevantProps_def)
qed (rule command_plain command_explicit command_key_only command_value_only)+

text \<open>The call with both explicit keys and a category member, as an instance.\<close>

theorem command_category_pair_witness:
  "extractFromLocalizedCommandCall
     (CallExpression (at 0 0 ''Command.toLocalizedCommand(..)'') (commandCallee 0 0 0 8)
        [ObjectLiteralExpression (at 0 27 ''{..}'')
                  [assignment ''id'' ''K'', assignment ''label'' ''L'',
                   assignment ''category'' ''C''],
                literal 0 50 ''K2'', literal 0 56 ''C2''])
   = Inr \<lparr>label = (''K2'', ''L''), category = Some (''C2'', ''C'')\<rparr>
   \<and> (\<exists>j properties propertyMap.
          [ObjectLiteralExpression (at 0 27 ''{..}'')
                  [assignment ''id'' ''K'', assignment ''label'' ''L'',
                   assignment ''category'' ''C''],
                literal 0 50 ''K2'', literal 0 56 ''C2''] ! 0 = ObjectLiteralExpression j properties
          \<and> propertyLoop properties Map.empty = Inr propertyMap
          \<and> fst (label \<lparr>label = (''K2'', ''L''), category = Some (''C2'', ''C'')\<rparr>) \<noteq> [] \<and> snd (label \<lparr>label = (''K2'', ''L''), category = Some (''C2'', ''C'')\<rparr>) \<noteq> []
          \<and> propertyMap ''label'' = Some (snd (label \<lparr>label = (''K2'', ''L''), category = Some (''C2'', ''C'')\<rparr>))
          \<and> (\<forall>ck cv. category \<lparr>label = (''K2'', ''L''), category = Some (''C2'', ''C'')\<rparr> = Some (ck, cv) \<longleftrightarrow>
                2 < length [ObjectLiteralExpression (at 0 27 ''{..}'')
                  [assignment ''id'' ''K'', assignment ''label'' ''L'',
                   assignment ''category'' ''C''],
                literal 0 50 ''K2'', literal 0 56 ''C2'']
                \<and> (\<exists>i2 t. [ObjectLiteralExpression (at 0 27 ''{..}'')
                  [assignment ''id'' ''K'', assignment ''label'' ''L'',
                   assignment ''category'' ''C''],
                literal 0 50 ''K2'', literal 0 56 ''C2''] ! 2 = StringLiteral i2 t \<and> ck = unescapeString t)
                \<and> ck \<noteq> []
                \<and> propertyMap ''category'' = Some cv \<and> cv \<noteq> []))"
proof -
  have call: "extractFromLocalizedCommandCall
     (CallExpression (at 0 0 ''Command.toLocalizedCommand(..)'') (commandCallee 0 0 0 8)
        [ObjectLiteralExpression (at 0 27 ''{..}'')
                  [assignment ''id'' ''K'', assignment ''label'' ''L'',
                   assignment ''category'' ''C''],
                literal 0 50 ''K2'', literal 0 56 ''C2''])
     = Inr \<lparr>label = (''K2'', ''L''), category = Some (''C2'', ''C'')\<rparr>"
    using command_explicit by (simp only: commandCall_def)
  from call command_category_pair
    [of "at 0 0 ''Command.toLocalizedCommand(..)''" "commandCallee 0 0 0 8"
       "[ObjectLiteralExpression (at 0 27 ''{..}'')
                  [assignment ''id'' ''K'', assignment ''label'' ''L'',
                   assignment ''category'' ''C''],
                literal 0 50 ''K2'', literal 0 56 ''C2'']"
       "\<lparr>label = (''K2'', ''L''), category = Some (''C2'', ''C'')\<rparr>",
      THEN conjunct1, THEN mp, OF call]
  show ?thesis by (rule conjI)
qed

text \<open>
  A category key and a category value that are both present do not suffice: with the
  empty string as third argument the category pair is left out.
\<close>

theorem command_category_empty_key_counterexample:
  "extractFromLocalizedCommandCall
     (commandCall
        [assignment ''id'' ''K'', assignment ''label'' ''L'', assignment ''category'' ''C'']
        [literal 0 50 ''K2'', literal 0 56 ''''])
   = Inr \<lparr>label = (''K2'', ''L''), category = None\<rparr>"
  by (simp add: sample_defs)

lemma command_label_general:
  assumes "extractFromLocalizedCommandCall (CallExpression i e args) = Inr r"
  shows "\<exists>j properties propertyMap.
          args ! 0 = ObjectLiteralExpression j properties
          \<and> propertyLoop properties Map.empty = Inr propertyMap
          \<and> (length args = 1 \<longrightarrow> propertyMap ''id'' = Some (fst (label r)))
          \<and> (\<forall>i1 t. 1 < length args \<and> args ! 1 = StringLiteral i1 t \<longrightarrow>
                (if unescapeString t \<noteq> [] then fst (label r) = unescapeString t
                 else propertyMap ''id'' = Some (fst (label r))))"
proof -
  from command_inversion[OF assms] obtain j properties pm labelKey categoryKey where
    obj: "args ! 0 = ObjectLiteralExpression j properties"
    and pm: "propertyLoop properties Map.empty = Inr pm"
    and lk: "if 1 < length args
         then \<exists>i1 t. args ! 1 = StringLiteral i1 t
                \<and> labelKey = (if unescapeString t \<noteq> [] then Some (unescapeString t)
                               else pm ''id'')
         else labelKey = pm ''id''"
    and t: "truthy labelKey"
    and r: "r = \<lparr>label = (the labelKey, the (pm ''label'')),
              category = (if truthy categoryKey \<and> truthy (pm ''category'')
                          then Some (the categoryKey, the (pm ''category'')) else None)\<rparr>"
    by blast
  from t obtain s where s: "labelKey = Some s" "s \<noteq> []"
    by (auto simp: truthy_iff)
  from r s have f: "fst (label r) = s" by simp
  have one: "length args = 1 \<longrightarrow> pm ''id'' = Some (fst (label r))"
    using lk s f by auto
  have two: "\<forall>i1 t. 1 < length args \<and> args ! 1 = StringLiteral i1 t \<longrightarrow>
                (if unescapeString t \<noteq> [] then fst (label r) = unescapeString t
                 else pm ''id'' = Some (fst (label r)))"
    using lk s f by (auto split: if_splits)
  from obj pm one two show ?thesis by blast
qed

lemma command_empty_as_absent:
  assumes "unescapeString t = []"
  shows "extractFromLocalizedCommandCall (CallExpression i e [obj, StringLiteral i1 t])
     = extractFromLocalizedCommandCall (CallExpression i e [obj])"
  using assms
  by (cases obj) (simp_all add: Let_def buildErrorMessage_def split: sum.splits)

text \<open>
  C9 (as amended). In a successful extraction from a localized-command call, the
  label key is the value of the \<^verbatim>\<open>id\<close> member when there is no second argument; it is
  the unescaped second argument when that is a literal with a non-empty value; and it
  is again the value of \<^verbatim>\<open>id\<close> when the second argument unescapes to the empty
  string. A call whose second argument unescapes to the empty string gives the same
  result, pair or error, as the call without that argument, whatever the object is.
\<close>

theorem command_label_key:
  "(extractFromLocalizedCommandCall (CallExpression i e args) = Inr r \<longrightarrow>
      (\<exists>j properties propertyMap.
          args ! 0 = ObjectLiteralExpression j properties
          \<and> propertyLoop properties Map.empty = Inr propertyMap
          \<and> (length args = 1 \<longrightarrow> propertyMap ''id'' = Some (fst (label r)))
          \<and> (\<forall>i1 t. 1 < length args \<and> args ! 1 = StringLiteral i1 t \<longrightarrow>
                (if unescapeString t \<noteq> [] then fst (label r) = unescapeString t
                 else propertyMap ''id'' = Some (fst (label r))))))
   \<and> (unescapeString t = [] \<longrightarrow>
        extractFromLocalizedCommandCall (CallExpression i e [obj, StringLiteral i1 t])
          = extractFromLocalizedCommandCall (CallExpression i e [obj]))"
proof (intro conjI impI)
  assume "extractFromLocalizedCommandCall (CallExpression i e args) = Inr r"
  then show "\<exists>j properties propertyMap.
          args ! 0 = ObjectLiteralExpression j properties
          \<and> propertyLoop properties Map.empty = Inr propertyMap
          \<and> (length args = 1 \<longrightarrow> propertyMap ''id'' = Some (fst (label r)))
          \<and> (\<forall>i1 t. 1 < length args \<and> args ! 1 = StringLiteral i1 t \<longrightarrow>
                (if unescapeString t \<noteq> [] then fst (label r) = unescapeString t
                 else propertyMap ''id'' = Some (fst (label r))))"
    by (rule command_label_general)
next
  assume "unescapeString t = []"
  then show "extractFromLocalizedCommandCall (CallExpression i e [obj, StringLiteral i1 t])
          = extractFromLocalizedCommandCall (CallExpression i e [obj])"
    by (rule command_empty_as_absent)
qed

lemma command_empty_key:
  "extractFromLocalizedCommandCall
     (commandCall [assignment ''id'' ''K'', assignment ''label'' ''L''] [literal 0 50 ''''])
   = Inr \<lparr>label = (''K'', ''L''), category = None\<rparr>"
  by (simp add: sample_defs)

text \<open>An empty, an absent and a non-empty second argument at a concrete command.\<close>

theorem command_label_key_witness:
  "unescapeString '''' = []
   \<and> extractFromLocalizedCommandCall
       (commandCall [assignment ''id'' ''K'', assignment ''label'' ''L''] [literal 0 50 ''''])
     = extractFromLocalizedCommandCall
         (commandCall [assignment ''id'' ''K'', assignment ''label'' ''L''] [])
   \<and> extractFromLocalizedCommandCall
         (commandCall [assignment ''id'' ''K'', assignment ''label'' ''L''] [])
     = Inr \<lparr>label = (''K'', ''L''), category = None\<rparr>
   \<and> extractFromLocalizedCommandCall
       (CallExpression (at 0 0 ''Command.toLocalizedCommand(..)'') (commandCallee 0 0 0 8)
          [ObjectLiteralExpression (at 0 27 ''{..}'')
             [assignment ''id'' ''K'', assignment ''label'' ''L''],
           literal 0 50 ''K2'', literal 0 56 ''C2''])
     = Inr \<lparr>label = (''K2'', ''L''), category = None\<rparr>
   \<and> (\<exists>j properties propertyMap.
          [ObjectLiteralExpression (at 0 27 ''{..}'')
             [assignment ''id'' ''K'', assignment ''label'' ''L''],
           literal 0 50 ''K2'', literal 0 56 ''C2''] ! 0
            = ObjectLiteralExpression j properties
          \<and> propertyLoop properties Map.empty = Inr propertyMap
          \<and> (length [ObjectLiteralExpression (at 0 27 ''{..}'')
                        [assignment ''id'' ''K'', assignment ''label'' ''L''],
                      literal 0 50 ''K2'', literal 0 56 ''C2''] = 1 \<longrightarrow>
               propertyMap ''id''
                 = Some (fst (label \<lparr>label = (''K2'', ''L''), category = None\<rparr>)))
          \<and> (\<forall>i1 t. 1 < length [ObjectLiteralExpression (at 0 27 ''{..}'')
                                   [assignment ''id'' ''K'', assignment ''label'' ''L''],
                                 literal 0 50 ''K2'', literal 0 56 ''C2'']
                  \<and> [ObjectLiteralExpression (at 0 27 ''{..}'')
                        [assignment ''id'' ''K'', assignment ''label'' ''L''],
                      literal 0 50 ''K2'', literal 0 56 ''C2''] ! 1 = StringLiteral i1 t \<longrightarrow>
                (if unescapeString t \<noteq> []
                 then fst (label \<lparr>label = (''K2'', ''L''), category = None\<rparr>)
                        = unescapeString t
                 else propertyMap ''id''
                        = Some (fst (label \<lparr>label = (''K2'', ''L''), category = None\<rparr>)))))"
proof -
  have empty: "unescapeString '''' = []"
    by (simp add: unescapeString_scan)
  from empty have same: "extractFromLocalizedCommandCall
       (commandCall [assignment ''id'' ''K'', assignment ''label'' ''L''] [literal 0 50 ''''])
     = extractFromLocalizedCommandCall
         (commandCall [assignment ''id'' ''K'', assignment ''label'' ''L''] [])"
    using command_label_key
      [where t = "''''" and i = "at 0 0 ''Command.toLocalizedCommand(..)''"
         and e = "commandCallee 0 0 0 8" and ?i1.0 = "at 0 50 (quoted '''')"
         and obj = "ObjectLiteralExpression (at 0 27 ''{..}'')
                      [assignment ''id'' ''K'', assignment ''label'' ''L'']"]
    by (simp only: commandCall_def literal_def)
  have call: "extractFromLocalizedCommandCall
       (CallExpression (at 0 0 ''Command.toLocalizedCommand(..)'') (commandCallee 0 0 0 8)
          [ObjectLiteralExpression (at 0 27 ''{..}'')
             [assignment ''id'' ''K'', assignment ''label'' ''L''],
           literal 0 50 ''K2'', literal 0 56 ''C2''])
     = Inr \<lparr>label = (''K2'', ''L''), category = None\<rparr>"
    using command_key_only by (simp only: commandCall_def)
  note general = command_label_key
    [of "at 0 0 ''Command.toLocalizedCommand(..)''" "commandCallee 0 0 0 8"
       "[ObjectLiteralExpression (at 0 27 ''{..}'')
             [assignment ''id'' ''K'', assignment ''label'' ''L''],
           literal 0 50 ''K2'', literal 0 56 ''C2'']"
       "\<lparr>label = (''K2'', ''L''), category = None\<rparr>",
      THEN conjunct1, THEN mp, OF call]
  from empty same command_plain call general show ?thesis
    by (intro conjI)
qed

text \<open>
  Without an \<^verbatim>\<open>id\<close> member the empty second argument is not unlike the absent one:
  both calls fail with the same error.
\<close>

theorem command_label_key_absent_id_counterexample:
  "extractFromLocalizedCommandCall
     (commandCall [assignment ''label'' ''L''] [literal 0 50 ''''])
     = Inl ''a.ts(1,1): No label key found''
   \<and> extractFromLocalizedCommandCall (commandCall [assignment ''label'' ''L''] [])
     = Inl ''a.ts(1,1): No label key found''"
  by (simp add: sample_defs)

section \<open>Per-file extraction: properties\<close>

lemma forOf_append:
  "forOf step (xs @ ys) st =
     (case forOf step xs st of
        None \<Rightarrow> None
      | Some st' \<Rightarrow> forOf step ys st')"
  by (induction xs arbitrary: st) (simp_all split: option.splits)






text \<open>The sample files: their call sites, and what is extracted from each of them.\<close>

lemma collect_sampleFile:
  "collect sampleFile isLocalizeCall = [goodCall, badCall]"
  "collect sampleFile isCommandLocalizeUtility = []"
  by (simp_all add: collect_unfold sampleFile_def goodCall_def badCall_def tree_defs)


lemma collect_conflictFile:
  "collect conflictFile isLocalizeCall
     = [goodCall, twoArgumentCall 0 22 1 ''k/x'' ''w'', twoArgumentCall 1 24 2 ''j'' ''u'']"
  "collect conflictFile isCommandLocalizeUtility = []"
  by (simp_all add: collect_unfold conflictFile_def goodCall_def tree_defs)


lemma unescapeString_samples:
  "unescapeString ''k'' = ''k''" "unescapeString ''v'' = ''v''"
  "unescapeString ''k/x'' = ''k/x''" "unescapeString ''w'' = ''w''"
  "unescapeString ''j'' = ''j''" "unescapeString ''u'' = ''u''"
  by (simp_all add: unescapeString_scan backslash_def)

lemma extract_twoArgumentCall:
  "extractFromLocalizeCall (twoArgumentCall l c l' k v) = Inr (unescapeString k, unescapeString v)"
  by (simp add: twoArgumentCall_def literal_def)

lemma extract_goodCall: "extractFromLocalizeCall goodCall = Inr (''k'', ''v'')"
  by (simp add: goodCall_def extract_twoArgumentCall unescapeString_samples)

lemma extract_badCall:
  "extractFromLocalizeCall badCall
     = Inl ''a.ts(1,23): Localize call needs at least 2 arguments''"
  by (simp add: badCall_def oneArgumentCall_def buildErrorMessage_def at_def digits_def)



lemma insert_samples:
  "insert_key [] ''k'' ''v'' = Some (None, [(''k'', Str ''v'')])"
  "insert_key [(''k'', Str ''v'')] ''k/x'' val
     = Some (Some (stringMessage [''k'']), [(''k'', Str ''v'')])"
  "insert_key [(''k'', Str ''v'')] ''k/c'' val
     = Some (Some (stringMessage [''k'']), [(''k'', Str ''v'')])"
  "insert_key [(''k'', Str ''v'')] ''j'' ''u'' = Some (None, [(''k'', Str ''v''), (''j'', Str ''u'')])"
  "insert_key [(''k'', Str ''v'')] ''K2'' ''L''
     = Some (None, [(''k'', Str ''v''), (''K2'', Str ''L'')])"
  "insert_key [(''k'', Str ''v''), (''K2'', Str ''L'')] ''k/c'' val
     = Some (Some (stringMessage [''k'']), [(''k'', Str ''v''), (''K2'', Str ''L'')])"
  "insert_key [(''k'', Str ''v''), (''K2'', Str ''L'')] ''J'' ''M''
     = Some (None, [(''k'', Str ''v''), (''K2'', Str ''L''), (''J'', Str ''M'')])"
  by (simp_all add: insert_key_def getProperty_def objectPrototypeFunctions_def)

lemma plain_not_excluded: "isExcluded plainOptions key = False"
  by (simp add: isExcluded_def plainOptions_def)

lemma extractFromFile_sampleFile:
  "extractFromFile sampleFile plainOptions []
     = Some ([(''k'', Str ''v'')], [''a.ts(1,23): Localize call needs at least 2 arguments''])"
  by (simp add: extractFromFile_def collect_sampleFile localizeCallStep_def extract_goodCall
      extract_badCall insertUnlessExcluded_def plain_not_excluded insert_samples)






lemma isExcluded_iff:
  "isExcluded options key \<longleftrightarrow> (\<exists>p. exclude options = Some p \<and> p \<noteq> [] \<and> prefix p key)"
  by (auto simp: isExcluded_def truthy_iff)

lemma excluded_pair:
  "isExcluded options (fst pair) \<Longrightarrow>
   insertUnlessExcluded options pair localization = Some (None, localization)"
  by (simp add: insertUnlessExcluded_def)

text \<open>
  C8 (as amended). When the \<^verbatim>\<open>exclude\<close> option is a non-empty string and a key starts
  with it, the key is excluded: its pair is dropped without an insertion and without
  an error. A direct localize call with such a key leaves catalog and error sink as
  they were. In a localized-command call an excluded label key leaves only the
  category pair to be handled, an excluded category key only the label pair, and when
  both are excluded the state is as it was.
\<close>

theorem excluded_key_dropped:
  "(exclude options = Some p \<and> p \<noteq> [] \<and> prefix p key \<longrightarrow>
      isExcluded options key
      \<and> insertUnlessExcluded options (key, val) localization = Some (None, localization))
   \<and> (exclude options = Some p \<and> p \<noteq> [] \<and> prefix p key
        \<and> extractFromLocalizeCall call = Inr (key, val) \<longrightarrow>
      localizeCallStep options call st = Some st)
   \<and> (exclude options = Some p \<and> p \<noteq> [] \<and> prefix p (fst (label r))
        \<and> extractFromLocalizedCommandCall command = Inr r \<longrightarrow>
      localizedCommandStep options command st
        = (case category r of
             None \<Rightarrow> Some st
           | Some cat \<Rightarrow>
               (case insertUnlessExcluded options cat (fst st) of
                  None \<Rightarrow> None
                | Some (Some message, localization') \<Rightarrow>
                    Some (localization', snd st @ [message])
                | Some (None, localization') \<Rightarrow> Some (localization', snd st))))
   \<and> (exclude options = Some p \<and> p \<noteq> [] \<and> category r = Some (key, val) \<and> prefix p key
        \<and> extractFromLocalizedCommandCall command = Inr r \<longrightarrow>
      localizedCommandStep options command st
        = (case insertUnlessExcluded options (label r) (fst st) of
             None \<Rightarrow> None
           | Some (Some message, localization') \<Rightarrow> Some (localization', snd st @ [message])
           | Some (None, localization') \<Rightarrow> Some (localization', snd st)))
   \<and> (exclude options = Some p \<and> p \<noteq> [] \<and> prefix p (fst (label r))
        \<and> category r = Some (key, val) \<and> prefix p key
        \<and> extractFromLocalizedCommandCall command = Inr r \<longrightarrow>
      localizedCommandStep options command st = Some st)"
proof (intro conjI impI)
  assume a: "exclude options = Some p \<and> p \<noteq> [] \<and> prefix p key"
  then show "isExcluded options key" by (auto simp: isExcluded_iff)
  then show "insertUnlessExcluded options (key, val) localization = Some (None, localization)"
    by (simp add: excluded_pair)
next
  assume a: "exclude options = Some p \<and> p \<noteq> [] \<and> prefix p key
        \<and> extractFromLocalizeCall call = Inr (key, val)"
  then have "isExcluded options key" by (auto simp: isExcluded_iff)
  with a show "localizeCallStep options call st = Some st"
    by (simp add: localizeCallStep_def excluded_pair)
next
  assume a: "exclude options = Some p \<and> p \<noteq> [] \<and> prefix p (fst (label r))
        \<and> extractFromLocalizedCommandCall command = Inr r"
  then have "isExcluded options (fst (label r))" by (auto simp: isExcluded_iff)
  with a show "localizedCommandStep options command st
        = (case category r of
             None \<Rightarrow> Some st
           | Some cat \<Rightarrow>
               (case insertUnlessExcluded options cat (fst st) of
                  None \<Rightarrow> None
                | Some (Some message, localization') \<Rightarrow>
                    Some (localization', snd st @ [message])
                | Some (None, localization') \<Rightarrow> Some (localization', snd st)))"
    by (simp add: localizedCommandStep_def excluded_pair split: option.splits)
next
  assume a: "exclude options = Some p \<and> p \<noteq> [] \<and> category r = Some (key, val)
        \<and> prefix p key \<and> extractFromLocalizedCommandCall command = Inr r"
  then have "isExcluded options (fst (key, val))" by (auto simp: isExcluded_iff)
  then have "insertUnlessExcluded options (key, val) l = Some (None, l)" for l
    by (rule excluded_pair)
  with a show "localizedCommandStep options command st
        = (case insertUnlessExcluded options (label r) (fst st) of
             None \<Rightarrow> None
           | Some (Some message, localization') \<Rightarrow> Some (localization', snd st @ [message])
           | Some (None, localization') \<Rightarrow> Some (localization', snd st))"
    by (simp add: localizedCommandStep_def split: prod.splits option.splits)
next
  assume a: "exclude options = Some p \<and> p \<noteq> [] \<and> prefix p (fst (label r))
        \<and> category r = Some (key, val) \<and> prefix p key
        \<and> extractFromLocalizedCommandCall command = Inr r"
  then have "isExcluded options (fst (label r))" "isExcluded options (fst (key, val))"
    by (auto simp: isExcluded_iff)
  then have "insertUnlessExcluded options (label r) l = Some (None, l)"
    "insertUnlessExcluded options (key, val) l = Some (None, l)" for l
    by (simp_all add: excluded_pair)
  with a show "localizedCommandStep options command st = Some st"
    by (simp add: localizedCommandStep_def)
qed

lemma command_three_keys:
  "extractFromLocalizedCommandCall
     (commandCall
        [assignment ''id'' ''k1'', assignment ''label'' ''L'', assignment ''category'' ''C'']
        [literal 0 50 ''k2'', literal 0 56 ''k3''])
   = Inr \<lparr>label = (''k2'', ''L''), category = Some (''k3'', ''C'')\<rparr>"
  by (simp add: sample_defs)

text \<open>The sample file under options that exclude the keys starting with \<^verbatim>\<open>k\<close>.\<close>

theorem excluded_key_dropped_witness:
  "exclude excludingOptions = Some ''k'' \<and> ''k'' \<noteq> [] \<and> prefix ''k'' ''k''
   \<and> extractFromLocalizeCall goodCall = Inr (''k'', ''v'')
   \<and> isExcluded excludingOptions ''k''
   \<and> localizeCallStep excludingOptions goodCall ([], []) = Some ([], [])
   \<and> extractFromFile sampleFile excludingOptions []
     = Some ([], [''a.ts(1,23): Localize call needs at least 2 arguments''])
   \<and> localizedCommandStep excludingOptions
         (commandCall
            [assignment ''id'' ''k1'', assignment ''label'' ''L'', assignment ''category'' ''C'']
            [literal 0 50 ''k2'', literal 0 56 ''k3'']) ([], [])
     = Some ([], [])
   \<and> localizedCommandStep (plainOptions\<lparr>exclude := Some ''k2''\<rparr>)
         (commandCall
            [assignment ''id'' ''k1'', assignment ''label'' ''L'', assignment ''category'' ''C'']
            [literal 0 50 ''k2'', literal 0 56 ''k3'']) ([], [])
     = Some ([(''k3'', Str ''C'')], [])
   \<and> localizedCommandStep (plainOptions\<lparr>exclude := Some ''k3''\<rparr>)
         (commandCall
            [assignment ''id'' ''k1'', assignment ''label'' ''L'', assignment ''category'' ''C'']
            [literal 0 50 ''k2'', literal 0 56 ''k3'']) ([], [])
     = Some ([(''k2'', Str ''L'')], [])"
proof -
  let ?cmd = "commandCall
            [assignment ''id'' ''k1'', assignment ''label'' ''L'', assignment ''category'' ''C'']
            [literal 0 50 ''k2'', literal 0 56 ''k3'']"
  let ?r = "\<lparr>label = (''k2'', ''L''), category = Some (''k3'', ''C'')\<rparr>"
  have h: "exclude excludingOptions = Some ''k'' \<and> ''k'' \<noteq> [] \<and> prefix ''k'' ''k''"
    by (simp add: excludingOptions_def plainOptions_def)
  note inst = excluded_key_dropped
    [where options = excludingOptions and p = "''k''" and key = "''k''" and val = "''v''"
       and call = goodCall and st = "([], [])"]
  from h inst have ex: "isExcluded excludingOptions ''k''"
    by blast
  from h extract_goodCall inst
  have step: "localizeCallStep excludingOptions goodCall ([], []) = Some ([], [])"
    by blast
  have bad: "localizeCallStep excludingOptions badCall ([], [])
      = Some ([], [''a.ts(1,23): Localize call needs at least 2 arguments''])"
    by (simp add: localizeCallStep_def extract_badCall)
  from step bad have whole: "extractFromFile sampleFile excludingOptions []
     = Some ([], [''a.ts(1,23): Localize call needs at least 2 arguments''])"
    by (simp add: extractFromFile_def collect_sampleFile)
  have both: "localizedCommandStep excludingOptions ?cmd ([], []) = Some ([], [])"
    using command_three_keys excluded_key_dropped
      [where options = excludingOptions and p = "''k''" and key = "''k3''" and val = "''C''"
         and r = ?r and command = ?cmd and st = "([], [])"]
    by (simp add: excludingOptions_def plainOptions_def)
  have labelOut: "localizedCommandStep (plainOptions\<lparr>exclude := Some ''k2''\<rparr>) ?cmd ([], [])
     = Some ([(''k3'', Str ''C'')], [])"
    using command_three_keys excluded_key_dropped
      [where options = "plainOptions\<lparr>exclude := Some ''k2''\<rparr>" and p = "''k2''"
         and r = ?r and command = ?cmd and st = "([], [])"]
    by (simp add: plainOptions_def insertUnlessExcluded_def isExcluded_def insert_key_def
        getProperty_def objectPrototypeFunctions_def)
  have categoryOut: "localizedCommandStep (plainOptions\<lparr>exclude := Some ''k3''\<rparr>) ?cmd ([], [])
     = Some ([(''k2'', Str ''L'')], [])"
    using command_three_keys excluded_key_dropped
      [where options = "plainOptions\<lparr>exclude := Some ''k3''\<rparr>" and p = "''k3''"
         and key = "''k3''" and val = "''C''"
         and r = ?r and command = ?cmd and st = "([], [])"]
    by (simp add: plainOptions_def insertUnlessExcluded_def isExcluded_def insert_key_def
        getProperty_def objectPrototypeFunctions_def)
  from h extract_goodCall ex step whole both labelOut categoryOut show ?thesis
    by (intro conjI) simp_all
qed

text \<open>
  An \<^verbatim>\<open>exclude\<close> option that is the empty string excludes nothing, although every key
  starts with it: the pair of the well-formed call is inserted.
\<close>

theorem excluded_empty_prefix_counterexample:
  "exclude emptyPrefixOptions = Some [] \<and> prefix [] ''k''
   \<and> extractFromLocalizeCall goodCall = Inr (''k'', ''v'')
   \<and> localizeCallStep emptyPrefixOptions goodCall ([], []) = Some ([(''k'', Str ''v'')], [])"
  by (simp add: emptyPrefixOptions_def plainOptions_def localizeCallStep_def extract_goodCall
      insertUnlessExcluded_def isExcluded_def insert_key_def getProperty_def
      objectPrototypeFunctions_def)

section \<open>Aggregation and merge: properties\<close>

lemma deepmerge_lookup:
  "distinct (map fst later) \<Longrightarrow>
   map_of (deepmerge earlier later) k =
     (case map_of later k of
        None \<Rightarrow> map_of earlier k
      | Some (Str s) \<Rightarrow> Some (Str s)
      | Some (Obj new) \<Rightarrow>
          (case map_of earlier k of
             Some (Obj old) \<Rightarrow> Some (Obj (deepmerge old new))
           | other \<Rightarrow> Some (Obj new)))"
proof (induction later arbitrary: earlier k)
  case Nil
  then show ?case by simp
next
  case (Cons kv later)
  obtain k' v where kv: "kv = (k', v)" by (cases kv)
  from Cons.prems kv have d: "distinct (map fst later)" and fresh: "map_of later k' = None"
    by (auto simp: map_of_eq_None_iff)
  show ?case
  proof (cases "k = k'")
    case True
    with fresh kv show ?thesis
      by (simp add: Cons.IH[OF d] update_conv' split: entry.splits option.splits)
  next
    case False
    with kv show ?thesis
      by (simp add: Cons.IH[OF d] update_conv' cong: option.case_cong entry.case_cong)
  qed
qed

lemma deepmerge_key_list:
  "set (map fst (deepmerge earlier later)) = set (map fst earlier) \<union> set (map fst later)"
proof (induction later arbitrary: earlier)
  case Nil
  then show ?case by simp
next
  case (Cons kv later)
  obtain k v where kv: "kv = (k, v)" by (cases kv)
  show ?case
    unfolding kv deepmerge.simps Cons.IH by (auto simp: update_keys)
qed

lemma deepmerge_keys:
  "fst ` set (deepmerge earlier later) = fst ` set earlier \<union> fst ` set later"
  using deepmerge_key_list[of earlier later] by simp

lemma deepmerge_example:
  "deepmerge [(''a'', Str ''0''), (''b'', Obj [(''d'', Str ''3'')])]
             [(''a'', Str ''1''), (''b'', Obj [(''c'', Str ''2'')])]
   = [(''a'', Str ''1''), (''b'', Obj [(''d'', Str ''3''), (''c'', Str ''2'')])]"
  by simp

lemma aggregateFiles_snoc:
  "aggregateFiles options (files @ [file]) =
     (case aggregateFiles options files of
        None \<Rightarrow> None
      | Some (aggregate, errors) \<Rightarrow>
          (case extractFromFile file options errors of
             None \<Rightarrow> None
           | Some (fileLocalization, errors') \<Rightarrow>
               Some (deepmerge aggregate fileLocalization, errors')))"
  by (simp add: aggregateFiles_def forOf_append aggregateStep_def
      split: option.splits prod.splits)

text \<open>
  C5. The merge is a total function: it returns a catalog for every pair of catalogs.
  A key of the merged catalog is a key of either operand. Where the later operand has
  no value for a key, the value of the earlier one stays; where both hold nested
  catalogs, the value is their merge; in every other case it is the value of the
  later operand. (The later operand is an object, so its keys are distinct.) Merging
  \<^verbatim>\<open>{a:"1", b:{c:"2"}}\<close> over \<^verbatim>\<open>{a:"0", b:{d:"3"}}\<close> gives the object with \<^verbatim>\<open>a\<close> = 1 and
  \<^verbatim>\<open>b\<close> = \<^verbatim>\<open>{d:"3", c:"2"}\<close>, the members in insertion order. In merge mode
  \<^verbatim>\<open>extract\<close> merges the extracted catalog over the existing one; without merge mode,
  or without an existing file, the extracted catalog is written as it is. Each file's
  catalog is merged over the aggregate of the files before it.
\<close>

theorem deepmerge_last_write_wins:
  "(distinct (map fst later) \<longrightarrow>
      map_of (deepmerge earlier later) k =
        (case map_of later k of
           None \<Rightarrow> map_of earlier k
         | Some (Str s) \<Rightarrow> Some (Str s)
         | Some (Obj new) \<Rightarrow>
             (case map_of earlier k of
                Some (Obj old) \<Rightarrow> Some (Obj (deepmerge old new))
              | other \<Rightarrow> Some (Obj new))))
   \<and> fst ` set (deepmerge earlier later) = fst ` set earlier \<union> fst ` set later
   \<and> deepmerge [(''a'', Str ''0''), (''b'', Obj [(''d'', Str ''3'')])]
                [(''a'', Str ''1''), (''b'', Obj [(''c'', Str ''2'')])]
       = [(''a'', Str ''1''), (''b'', Obj [(''d'', Str ''3''), (''c'', Str ''2'')])]
   \<and> map (entryAt (deepmerge [(''a'', Str ''0''), (''b'', Obj [(''d'', Str ''3'')])]
                               [(''a'', Str ''1''), (''b'', Obj [(''c'', Str ''2'')])]))
         [[''a''], [''b'', ''c''], [''b'', ''d'']]
       = [Some (Str ''1''), Some (Str ''2''), Some (Str ''3'')]
   \<and> mergeExisting (options\<lparr>merge := True\<rparr>) (Some existing) localization
       = deepmerge existing localization
   \<and> mergeExisting (options\<lparr>merge := False\<rparr>) (Some existing) localization = localization
   \<and> mergeExisting options None localization = localization
   \<and> aggregateFiles options (files @ [file]) =
       (case aggregateFiles options files of
          None \<Rightarrow> None
        | Some (aggregate, errors) \<Rightarrow>
            (case extractFromFile file options errors of
               None \<Rightarrow> None
             | Some (fileLocalization, errors') \<Rightarrow>
                 Some (deepmerge aggregate fileLocalization, errors')))"
proof (intro conjI impI)
  assume "distinct (map fst later)"
  then show "map_of (deepmerge earlier later) k =
        (case map_of later k of
           None \<Rightarrow> map_of earlier k
         | Some (Str s) \<Rightarrow> Some (Str s)
         | Some (Obj new) \<Rightarrow>
             (case map_of earlier k of
                Some (Obj old) \<Rightarrow> Some (Obj (deepmerge old new))
              | other \<Rightarrow> Some (Obj new)))"
    by (rule deepmerge_lookup)
next
  show "fst ` set (deepmerge earlier later) = fst ` set earlier \<union> fst ` set later"
    by (rule deepmerge_keys)
next
  show "deepmerge [(''a'', Str ''0''), (''b'', Obj [(''d'', Str ''3'')])]
                [(''a'', Str ''1''), (''b'', Obj [(''c'', Str ''2'')])]
       = [(''a'', Str ''1''), (''b'', Obj [(''d'', Str ''3''), (''c'', Str ''2'')])]"
    by (rule deepmerge_example)
next
  show "map (entryAt (deepmerge [(''a'', Str ''0''), (''b'', Obj [(''d'', Str ''3'')])]
                               [(''a'', Str ''1''), (''b'', Obj [(''c'', Str ''2'')])]))
         [[''a''], [''b'', ''c''], [''b'', ''d'']]
       = [Some (Str ''1''), Some (Str ''2''), Some (Str ''3'')]"
    by (simp add: deepmerge_example)
next
  show "aggregateFiles options (files @ [file]) =
       (case aggregateFiles options files of
          None \<Rightarrow> None
        | Some (aggregate, errors) \<Rightarrow>
            (case extractFromFile file options errors of
               None \<Rightarrow> None
             | Some (fileLocalization, errors') \<Rightarrow>
                 Some (deepmerge aggregate fileLocalization, errors')))"
    by (rule aggregateFiles_snoc)
qed (simp_all add: mergeExisting_def)

text \<open>
  The lookup rule of C5 at the two keys of the example, and the aggregate of two of
  the sample files.
\<close>

theorem deepmerge_last_write_wins_witness:
  "distinct (map fst [(''a'', Str ''1''), (''b'', Obj [(''c'', Str ''2'')])])
   \<and> map_of (deepmerge [(''a'', Str ''0''), (''b'', Obj [(''d'', Str ''3'')])]
                        [(''a'', Str ''1''), (''b'', Obj [(''c'', Str ''2'')])]) ''b''
       = Some (Obj (deepmerge [(''d'', Str ''3'')] [(''c'', Str ''2'')]))
   \<and> map_of (deepmerge [(''a'', Str ''0''), (''b'', Obj [(''d'', Str ''3'')])]
                        [(''a'', Str ''1''), (''b'', Obj [(''c'', Str ''2'')])]) ''a''
       = Some (Str ''1'')
   \<and> aggregateFiles plainOptions ([sampleFile] @ [conflictFile])
       = Some ([(''k'', Str ''v''), (''j'', Str ''u'')],
               [''a.ts(1,23): Localize call needs at least 2 arguments'',
                stringMessage [''k'']])"
proof -
  have d: "distinct (map fst [(''a'', Str ''1''), (''b'', Obj [(''c'', Str ''2'')])])"
    by simp
  from d deepmerge_last_write_wins
    [where later = "[(''a'', Str ''1''), (''b'', Obj [(''c'', Str ''2'')])]"
       and earlier = "[(''a'', Str ''0''), (''b'', Obj [(''d'', Str ''3'')])]"
       and k = "''b''"]
  have b: "map_of (deepmerge [(''a'', Str ''0''), (''b'', Obj [(''d'', Str ''3'')])]
                        [(''a'', Str ''1''), (''b'', Obj [(''c'', Str ''2'')])]) ''b''
       = Some (Obj (deepmerge [(''d'', Str ''3'')] [(''c'', Str ''2'')]))"
    by simp
  from d deepmerge_last_write_wins
    [where later = "[(''a'', Str ''1''), (''b'', Obj [(''c'', Str ''2'')])]"
       and earlier = "[(''a'', Str ''0''), (''b'', Obj [(''d'', Str ''3'')])]"
       and k = "''a''"]
  have a: "map_of (deepmerge [(''a'', Str ''0''), (''b'', Obj [(''d'', Str ''3'')])]
                        [(''a'', Str ''1''), (''b'', Obj [(''c'', Str ''2'')])]) ''a''
       = Some (Str ''1'')"
    by simp
  have first: "aggregateFiles plainOptions [sampleFile]
      = Some ([(''k'', Str ''v'')], [''a.ts(1,23): Localize call needs at least 2 arguments''])"
    by (simp add: aggregateFiles_def aggregateStep_def extractFromFile_sampleFile)
  have second: "extractFromFile conflictFile plainOptions
        [''a.ts(1,23): Localize call needs at least 2 arguments'']
      = Some ([(''k'', Str ''v''), (''j'', Str ''u'')],
              [''a.ts(1,23): Localize call needs at least 2 arguments'', stringMessage [''k'']])"
    by (simp add: extractFromFile_def collect_conflictFile localizeCallStep_def extract_goodCall
        extract_twoArgumentCall unescapeString_samples insertUnlessExcluded_def
        plain_not_excluded insert_samples)
  note snoc = deepmerge_last_write_wins
    [where options = plainOptions and files = "[sampleFile]" and ?file = conflictFile,
     THEN conjunct2, THEN conjunct2, THEN conjunct2, THEN conjunct2, THEN conjunct2,
     THEN conjunct2, THEN conjunct2]
  have both: "aggregateFiles plainOptions ([sampleFile] @ [conflictFile])
       = Some ([(''k'', Str ''v''), (''j'', Str ''u'')],
               [''a.ts(1,23): Localize call needs at least 2 arguments'',
                stringMessage [''k'']])"
    unfolding snoc first by (simp add: second)
  from d b a both show ?thesis by (intro conjI)
qed

end
